theory Spec2Isabelle
  imports Main
begin

section \<open>Durations\<close>

text \<open>
  Go's \<^verbatim>\<open>time.Duration\<close> is a signed 64-bit count of nanoseconds. \<^verbatim>\<open>Retry\<close> only
  compares and copies durations, so they are integers here; the one place that
  multiplies (\<^verbatim>\<open>RetryAfter\<close>) has the two's-complement wrap-around written out.
\<close>

type_synonym Duration = int

definition Second :: Duration where
  "Second = 1000000000"

definition Minute :: Duration where
  "Minute = 60 * Second"

definition Millisecond :: Duration where
  "Millisecond = 1000000"

text \<open>\<^verbatim>\<open>const DefaultMaxElapsedTime = 15 * time.Minute\<close>\<close>

definition DefaultMaxElapsedTime :: Duration where
  "DefaultMaxElapsedTime = 15 * Minute"

text \<open>
  Modelled from the spec: the sentinel \<^verbatim>\<open>Stop\<close> of the BackOff capability, whose
  declaration is not among the source files; the specification gives it as the
  distinguished duration \<open>-1\<close>.
\<close>

definition Stop :: Duration where
  "Stop = - 1"

section \<open>Signal errors\<close>

text \<open>
  A Go \<^verbatim>\<open>error\<close> is an interface value; \<^verbatim>\<open>nil\<close> is \<open>None\<close> of \<open>error option\<close>.
  The non-nil values are
  \<^item> errors made outside the package: \<^verbatim>\<open>errors.New(s)\<close> and a wrapping error such as
    \<^verbatim>\<open>fmt.Errorf("s: %w", e)\<close>, which has the message \<open>s\<close> and unwraps to \<open>e\<close>;
  \<^item> a \<^verbatim>\<open>*PermanentError\<close>, a pointer that may itself be nil, to a struct whose
    field \<^verbatim>\<open>Err\<close> may be nil;
  \<^item> a \<^verbatim>\<open>*RetryAfterError\<close>, again a pointer that may be nil.
\<close>

datatype 'e PermanentError = PermanentError (Err: "'e option")

datatype RetryAfterError = RetryAfterError (Duration: Duration)

datatype error =
    ErrorString string
  | WrapError string error
  | PermanentErrorPtr "error PermanentError option"
  | RetryAfterErrorPtr "RetryAfterError option"

datatype panic = NilDereference

text \<open>
  \<^verbatim>\<open>func Permanent(err error) error\<close>: nil stays nil, anything else is wrapped in a
  fresh \<^verbatim>\<open>&PermanentError{Err: err}\<close>.
\<close>

fun Permanent :: "error option \<Rightarrow> error option" where
  "Permanent None = None"
| "Permanent (Some err) = Some (PermanentErrorPtr (Some (PermanentError (Some err))))"

text \<open>
  \<^verbatim>\<open>func (e *PermanentError) Unwrap() error { return e.Err }\<close>. Reading the field
  through a nil receiver panics.
\<close>

fun Unwrap :: "'e PermanentError option \<Rightarrow> panic + 'e option" where
  "Unwrap None = Inl NilDereference"
| "Unwrap (Some e) = Inr (Err e)"

text \<open>
  \<^verbatim>\<open>func RetryAfter(seconds int) error\<close> returns
  \<^verbatim>\<open>&RetryAfterError{Duration: time.Duration(seconds) * time.Second}\<close>; the product is
  an \<^verbatim>\<open>int64\<close> and wraps.
\<close>

definition RetryAfter :: "int \<Rightarrow> error option" where
  "RetryAfter seconds =
     Some (RetryAfterErrorPtr (Some (RetryAfterError (signed_take_bit 63 (seconds * Second)))))"

text \<open>
  The method \<^verbatim>\<open>Error()\<close> of each kind of error. For a \<^verbatim>\<open>*PermanentError\<close> it is
  \<^verbatim>\<open>e.Err.Error()\<close>, which panics when the receiver or its \<^verbatim>\<open>Err\<close> is nil; for a
  \<^verbatim>\<open>*RetryAfterError\<close> it is \<^verbatim>\<open>fmt.Sprintf("retry after %s", e.Duration)\<close>, where the
  standard library's rendering of a duration is the parameter \<open>fmtd\<close>.
\<close>

fun Error :: "(Duration \<Rightarrow> string) \<Rightarrow> error \<Rightarrow> panic + string" where
  "Error fmtd (ErrorString s) = Inr s"
| "Error fmtd (WrapError s e) = Inr s"
| "Error fmtd (PermanentErrorPtr None) = Inl NilDereference"
| "Error fmtd (PermanentErrorPtr (Some (PermanentError None))) = Inl NilDereference"
| "Error fmtd (PermanentErrorPtr (Some (PermanentError (Some e)))) = Error fmtd e"
| "Error fmtd (RetryAfterErrorPtr None) = Inl NilDereference"
| "Error fmtd (RetryAfterErrorPtr (Some r)) = Inr (''retry after '' @ fmtd (Duration r))"

text \<open>
  \<^verbatim>\<open>errors.As(err, &permanent)\<close> with \<^verbatim>\<open>permanent\<close> of type \<^verbatim>\<open>*PermanentError\<close>: it walks
  the chain of \<^verbatim>\<open>Unwrap\<close> from \<open>err\<close> and stops at the first \<^verbatim>\<open>*PermanentError\<close>, which
  it stores in the target. \<open>None\<close> is the result \<^verbatim>\<open>false\<close>, \<open>Some p\<close> is \<^verbatim>\<open>true\<close> with
  the pointer \<open>p\<close> found. A \<^verbatim>\<open>*RetryAfterError\<close> has no \<^verbatim>\<open>Unwrap\<close> method, so the
  chain ends there.
\<close>

fun errors_As_PermanentError :: "error \<Rightarrow> error PermanentError option option" where
  "errors_As_PermanentError (ErrorString s) = None"
| "errors_As_PermanentError (WrapError s e) = errors_As_PermanentError e"
| "errors_As_PermanentError (PermanentErrorPtr p) = Some p"
| "errors_As_PermanentError (RetryAfterErrorPtr r) = None"

section \<open>The collaborators of Retry\<close>

text \<open>
  A \<^verbatim>\<open>BackOff\<close> is an interface with the methods \<^verbatim>\<open>NextBackOff() time.Duration\<close> and
  \<^verbatim>\<open>Reset()\<close>; its implementations are not among the source files. An object of the
  interface is its mutable state together with what the two methods do to it.
\<close>

record 'b BackOff =
  bstate :: 'b
  NextBackOff_impl :: "'b \<Rightarrow> Duration \<times> 'b"
  Reset_impl :: "'b \<Rightarrow> 'b"

definition Reset :: "'b BackOff \<Rightarrow> 'b BackOff" where
  "Reset b = b\<lparr>bstate := Reset_impl b (bstate b)\<rparr>"

definition NextBackOff :: "'b BackOff \<Rightarrow> Duration \<times> 'b BackOff" where
  "NextBackOff b =
     (case NextBackOff_impl b (bstate b) of (next, s) \<Rightarrow> (next, b\<lparr>bstate := s\<rparr>))"

text \<open>
  A \<^verbatim>\<open>Timer\<close> is known by its identity only: the default \<^verbatim>\<open>&defaultTimer{}\<close>, or the
  one given to \<^verbatim>\<open>WithTimer\<close>. A \<^verbatim>\<open>Notify\<close> callback is likewise known by a number.
\<close>

datatype Timer = defaultTimer | customTimer nat

type_synonym Notify = nat

text \<open>
  What happens at the \<^verbatim>\<open>select\<close> of one wait: the timer's channel delivers, or the
  context's \<^verbatim>\<open>Done\<close> channel is closed first.
\<close>

datatype select_case = TimerFired | CtxDone

text \<open>
  Every call that \<^verbatim>\<open>Retry\<close> makes to a collaborator is logged, in program order, with
  the arguments passed and the value that came back.
\<close>

datatype event =
    CallNow
  | CallReset
  | CallOperation nat "error option"
  | CallSince Duration
  | CallNextBackOff Duration
  | CallCtxErr "error option"
  | CallNotify Notify error Duration
  | CallTimerStart Timer Duration
  | CallSelect select_case
  | CallTimerStop Timer

text \<open>
  The cancellation context, as \<^verbatim>\<open>Retry\<close> observes it during attempt \<open>i\<close>:
  \<open>Err_before_wait c i\<close> is what \<^verbatim>\<open>ctx.Err()\<close> returns at the check before the wait, and
  \<open>Done_during_wait c i = Some cerr\<close> says that \<^verbatim>\<open>ctx.Done()\<close> wins the \<^verbatim>\<open>select\<close> of that
  wait, after which \<^verbatim>\<open>ctx.Err()\<close> returns the non-nil \<open>cerr\<close>; \<open>None\<close> says that the
  timer fires.
\<close>

record Context =
  Err_before_wait :: "nat \<Rightarrow> error option"
  Done_during_wait :: "nat \<Rightarrow> error option"

text \<open>
  The rest of the environment: the generator that \<^verbatim>\<open>NewExponentialBackOff()\<close> returns
  (its code is not among the source files), and the reading of
  \<^verbatim>\<open>time.Since(startedAt)\<close> taken in attempt \<open>i\<close>.
\<close>

record 'b env =
  NewExponentialBackOff :: "'b BackOff"
  time_Since :: "nat \<Rightarrow> Duration"

text \<open>
  \<^verbatim>\<open>type Operation[T any] func() (T, error)\<close>: a closure; \<open>operation i\<close> is what its
  \<open>i\<close>-th invocation returns.
\<close>

type_synonym 'r Operation = "nat \<Rightarrow> 'r \<times> error option"

section \<open>Options\<close>

record 'b retryOptions =
  BackOff :: "'b BackOff"
  Timer :: Timer
  Notify :: "Notify option"
  MaxElapsedTime :: Duration
  MaxTries :: nat

type_synonym 'b RetryOption = "'b retryOptions \<Rightarrow> 'b retryOptions"

definition WithBackOff :: "'b BackOff \<Rightarrow> 'b RetryOption" where
  "WithBackOff b = (\<lambda>args. args\<lparr>BackOff := b\<rparr>)"

definition WithTimer :: "Timer \<Rightarrow> 'b RetryOption" where
  "WithTimer t = (\<lambda>args. args\<lparr>Timer := t\<rparr>)"

definition WithNotify :: "Notify option \<Rightarrow> 'b RetryOption" where
  "WithNotify n = (\<lambda>args. args\<lparr>Notify := n\<rparr>)"

definition WithMaxElapsedTime :: "Duration \<Rightarrow> 'b RetryOption" where
  "WithMaxElapsedTime d = (\<lambda>args. args\<lparr>MaxElapsedTime := d\<rparr>)"

definition WithMaxTries :: "nat \<Rightarrow> 'b RetryOption" where
  "WithMaxTries n = (\<lambda>args. args\<lparr>MaxTries := n\<rparr>)"

text \<open>
  The first lines of \<^verbatim>\<open>Retry\<close>: the default options (the fields not written in the
  struct literal are zero: no \<^verbatim>\<open>Notify\<close>, \<^verbatim>\<open>MaxTries = 0\<close>), then every option applied
  in order.
\<close>

definition defaultOptions :: "'b env \<Rightarrow> 'b retryOptions" where
  "defaultOptions e =
     \<lparr>BackOff = NewExponentialBackOff e, Timer = defaultTimer, Notify = None,
      MaxElapsedTime = DefaultMaxElapsedTime, MaxTries = 0\<rparr>"

definition applyOptions :: "'b env \<Rightarrow> 'b RetryOption list \<Rightarrow> 'b retryOptions" where
  "applyOptions e opts = foldl (\<lambda>args opt. opt args) (defaultOptions e) opts"

section \<open>Retry\<close>

text \<open>
  The \<^verbatim>\<open>return\<close> statements of \<^verbatim>\<open>Retry\<close>, in the order of the source: after a nil
  error, at the \<^verbatim>\<open>MaxTries\<close> test, at the \<^verbatim>\<open>MaxElapsedTime\<close> test, at the
  \<^verbatim>\<open>errors.As\<close> test, at \<^verbatim>\<open>next == Stop\<close>, at \<^verbatim>\<open>ctx.Err() != nil\<close>, and in the
  \<^verbatim>\<open>ctx.Done()\<close> case of the \<^verbatim>\<open>select\<close>.
\<close>

datatype exit =
    Success
  | MaxTriesReached
  | MaxElapsedTimeExceeded
  | PermanentFailure
  | BackOffStopped
  | CancelledBeforeWait
  | CancelledDuringWait

text \<open>
  What a call has done so far: it has returned, through the given \<^verbatim>\<open>return\<close> with
  \<^verbatim>\<open>numTries\<close> as it stood, the pair \<^verbatim>\<open>(res, err)\<close>, the generator as the call left
  it and the log of the whole call; or it is still inside the loop, with the
  log up to there.
\<close>

datatype ('b, 'r) outcome =
    Returned exit nat 'r "error option" "'b BackOff" "event list"
  | Running "event list"

fun events :: "('b, 'r) outcome \<Rightarrow> event list" where
  "events (Returned x n res err b tr) = tr"
| "events (Running tr) = tr"

fun before :: "event list \<Rightarrow> ('b, 'r) outcome \<Rightarrow> ('b, 'r) outcome" where
  "before evs (Returned x n res err b tr) = Returned x n res err b (evs @ tr)"
| "before evs (Running tr) = Running (evs @ tr)"

text \<open>
  One pass through the body of the \<^verbatim>\<open>for\<close> loop, with \<^verbatim>\<open>numTries = n\<close>: the calls it
  makes, and either the \<^verbatim>\<open>return\<close> it takes or the generator with which the next
  pass starts. The body is
  \<^verbatim>\<open>
      res, err := operation()
      if err == nil { return res, nil }
      if args.MaxTries > 0 && numTries >= args.MaxTries { return res, err }
      if time.Since(startedAt) > args.MaxElapsedTime { return res, err }
      var permanent *PermanentError
      if errors.As(err, &permanent) { return res, err }
      next := args.BackOff.NextBackOff()
      if next == Stop { return res, err }
      if cerr := ctx.Err(); cerr != nil { return res, cerr }
      if args.Notify != nil { args.Notify(err, next) }
      args.Timer.Start(next)
      select {
      case <-args.Timer.C():
      case <-ctx.Done():
          return res, ctx.Err()
      }
  \<close>
  Each branch of the model lists the calls made on the way to it. The generator
  is the only collaborator whose state the model carries: a \<^verbatim>\<open>return\<close> taken before
  \<^verbatim>\<open>NextBackOff\<close> leaves it as the pass found it.
\<close>

datatype ('b, 'r) step =
    Return exit 'r "error option" "'b BackOff"
  | Continue "'b BackOff"

definition notify :: "Notify option \<Rightarrow> error \<Rightarrow> Duration \<Rightarrow> event list" where
  "notify cb err next = (case cb of None \<Rightarrow> [] | Some f \<Rightarrow> [CallNotify f err next])"

definition attempt ::
  "'b env \<Rightarrow> Context \<Rightarrow> 'r Operation \<Rightarrow> 'b retryOptions \<Rightarrow> nat \<Rightarrow> 'b BackOff \<Rightarrow>
     event list \<times> ('b, 'r) step" where
  "attempt e ctx operation args n b =
     (case operation n of (res, err) \<Rightarrow>
      (case err of
         None \<Rightarrow> ([CallOperation n err], Return Success res None b)
       | Some oerr \<Rightarrow>
           if MaxTries args > 0 \<and> n \<ge> MaxTries args then
             ([CallOperation n err], Return MaxTriesReached res err b)
           else if time_Since e n > MaxElapsedTime args then
             ([CallOperation n err, CallSince (time_Since e n)],
              Return MaxElapsedTimeExceeded res err b)
           else if errors_As_PermanentError oerr \<noteq> None then
             ([CallOperation n err, CallSince (time_Since e n)],
              Return PermanentFailure res err b)
           else
             (case NextBackOff b of (next, b') \<Rightarrow>
                if next = Stop then
                  ([CallOperation n err, CallSince (time_Since e n), CallNextBackOff next],
                   Return BackOffStopped res err b')
                else
                  (case Err_before_wait ctx n of
                     Some cerr \<Rightarrow>
                       ([CallOperation n err, CallSince (time_Since e n), CallNextBackOff next,
                         CallCtxErr (Some cerr)],
                        Return CancelledBeforeWait res (Some cerr) b')
                   | None \<Rightarrow>
                       (case Done_during_wait ctx n of
                          Some cerr \<Rightarrow>
                            ([CallOperation n err, CallSince (time_Since e n),
                              CallNextBackOff next, CallCtxErr None]
                             @ notify (Notify args) oerr next
                             @ [CallTimerStart (Timer args) next, CallSelect CtxDone,
                                CallCtxErr (Some cerr)],
                             Return CancelledDuringWait res (Some cerr) b')
                        | None \<Rightarrow>
                            ([CallOperation n err, CallSince (time_Since e n),
                              CallNextBackOff next, CallCtxErr None]
                             @ notify (Notify args) oerr next
                             @ [CallTimerStart (Timer args) next, CallSelect TimerFired],
                             Continue b'))))))"

text \<open>
  The loop \<^verbatim>\<open>for numTries := uint(1); ; numTries++\<close>. It has no exit of its own, so
  the model runs at most \<open>fuel\<close> passes and says \<open>Running\<close> when they are used up.
  \<^verbatim>\<open>numTries\<close> is a natural number: the counter is only read in
  \<^verbatim>\<open>numTries >= args.MaxTries\<close> under \<^verbatim>\<open>args.MaxTries > 0\<close>, a test that holds, and
  returns, no later than at \<^verbatim>\<open>numTries = args.MaxTries\<close>, before a \<^verbatim>\<open>uint\<close> could wrap;
  with \<^verbatim>\<open>args.MaxTries = 0\<close> it is not read at all. In the model \<open>n\<close> also numbers the
  invocations of the operation and the readings of the clock and the context.
\<close>

fun Retry_loop ::
  "nat \<Rightarrow> 'b env \<Rightarrow> Context \<Rightarrow> 'r Operation \<Rightarrow> 'b retryOptions \<Rightarrow> nat \<Rightarrow> 'b BackOff \<Rightarrow>
     ('b, 'r) outcome" where
  "Retry_loop 0 e ctx operation args n b = Running []"
| "Retry_loop (Suc fuel) e ctx operation args n b =
     (case attempt e ctx operation args n b of
        (evs, Return x res err b') \<Rightarrow> Returned x n res err b' evs
      | (evs, Continue b') \<Rightarrow> before evs (Retry_loop fuel e ctx operation args (Suc n) b'))"

text \<open>
  \<^verbatim>\<open>defer args.Timer.Stop()\<close>: the timer is stopped when the function returns.
\<close>

fun deferred :: "Timer \<Rightarrow> ('b, 'r) outcome \<Rightarrow> ('b, 'r) outcome" where
  "deferred t (Returned x n res err b tr) = Returned x n res err b (tr @ [CallTimerStop t])"
| "deferred t (Running tr) = Running tr"

text \<open>
  \<^verbatim>\<open>func Retry[T any](ctx context.Context, operation Operation[T], opts ...RetryOption) (T, error)\<close>.
  Before the loop it builds the options, defers \<^verbatim>\<open>args.Timer.Stop()\<close>, reads the clock
  and resets the generator:
  \<^verbatim>\<open>
      defer args.Timer.Stop()
      startedAt := time.Now()
      args.BackOff.Reset()
      for numTries := uint(1); ; numTries++ { ... }
  \<close>
\<close>

definition Retry ::
  "nat \<Rightarrow> 'b env \<Rightarrow> Context \<Rightarrow> 'r Operation \<Rightarrow> 'b RetryOption list \<Rightarrow> ('b, 'r) outcome" where
  "Retry fuel e ctx operation opts =
     (let args = applyOptions e opts in
      deferred (Timer args)
        (before [CallNow, CallReset]
           (Retry_loop fuel e ctx operation args 1 (Reset (BackOff args)))))"

text \<open>The invocations of the operation that a log records, by their numbers.\<close>

fun invocations :: "event list \<Rightarrow> nat list" where
  "invocations [] = []"
| "invocations (CallOperation i err # tr) = i # invocations tr"
| "invocations (ev # tr) = invocations tr"

text \<open>The delays that the calls of \<^verbatim>\<open>NextBackOff\<close> in a log returned, in order.\<close>

fun delays :: "event list \<Rightarrow> Duration list" where
  "delays [] = []"
| "delays (CallNextBackOff d # tr) = d # delays tr"
| "delays (ev # tr) = delays tr"

text \<open>
  The delay that the \<open>(k+1)\<close>-th call of \<^verbatim>\<open>NextBackOff\<close> returns, counted from the state
  the generator \<open>b\<close> is in.
\<close>

definition delay :: "'b BackOff \<Rightarrow> nat \<Rightarrow> Duration" where
  "delay b k = fst (NextBackOff_impl b (((\<lambda>s. snd (NextBackOff_impl b s)) ^^ k) (bstate b)))"

text \<open>
  Pass \<open>i\<close> of the loop gets as far as asking the generator for the next delay: the
  operation failed, and none of the \<^verbatim>\<open>MaxTries\<close>, \<^verbatim>\<open>MaxElapsedTime\<close> and \<^verbatim>\<open>errors.As\<close>
  tests holds.
\<close>

definition passes_tests :: "'b env \<Rightarrow> 'r Operation \<Rightarrow> 'b retryOptions \<Rightarrow> nat \<Rightarrow> bool" where
  "passes_tests e operation args i =
     (case snd (operation i) of
        None \<Rightarrow> False
      | Some oerr \<Rightarrow>
          \<not> (MaxTries args > 0 \<and> i \<ge> MaxTries args) \<and>
          \<not> time_Since e i > MaxElapsedTime args \<and>
          errors_As_PermanentError oerr = None)"

text \<open>
  Pass \<open>i\<close> is retried, as far as the operation's error, the counter, the clock and
  the context go: it passes those tests, and the context is cancelled neither
  before nor during the wait. (The generator must also not say \<^verbatim>\<open>Stop\<close>; that is a
  condition on \<open>delay\<close>, stated apart.)
\<close>

definition retried :: "'b env \<Rightarrow> Context \<Rightarrow> 'r Operation \<Rightarrow> 'b retryOptions \<Rightarrow> nat \<Rightarrow> bool" where
  "retried e ctx operation args i =
     (passes_tests e operation args i \<and>
      Err_before_wait ctx i = None \<and>
      Done_during_wait ctx i = None)"

section \<open>Concrete collaborators\<close>

text \<open>
  A generator whose delay doubles from 500 ms and is set back to 500 ms by
  \<^verbatim>\<open>Reset\<close>; one that says \<^verbatim>\<open>Stop\<close> at once; a context that is never cancelled and one
  that is cancelled from the start; a clock that stands still.
\<close>

definition doubling :: "Duration BackOff" where
  "doubling =
     \<lparr>bstate = 500 * Millisecond,
      NextBackOff_impl = (\<lambda>d. (d, 2 * d)),
      Reset_impl = (\<lambda>d. 500 * Millisecond)\<rparr>"

definition stopping :: "Duration BackOff" where
  "stopping =
     \<lparr>bstate = 0, NextBackOff_impl = (\<lambda>d. (Stop, d)), Reset_impl = (\<lambda>d. 0)\<rparr>"

definition background :: Context where
  "background = \<lparr>Err_before_wait = (\<lambda>i. None), Done_during_wait = (\<lambda>i. None)\<rparr>"

definition Canceled :: error where
  "Canceled = ErrorString ''context canceled''"

definition cancelled :: Context where
  "cancelled =
     \<lparr>Err_before_wait = (\<lambda>i. Some Canceled), Done_during_wait = (\<lambda>i. Some Canceled)\<rparr>"

definition cancelled_in_wait :: Context where
  "cancelled_in_wait =
     \<lparr>Err_before_wait = (\<lambda>i. None), Done_during_wait = (\<lambda>i. Some Canceled)\<rparr>"

definition cancelled_from :: "nat \<Rightarrow> Context" where
  "cancelled_from k =
     \<lparr>Err_before_wait = (\<lambda>i. if k \<le> i then Some Canceled else None),
      Done_during_wait = (\<lambda>i. if k \<le> i then Some Canceled else None)\<rparr>"

definition still :: "Duration env" where
  "still = \<lparr>NewExponentialBackOff = doubling, time_Since = (\<lambda>i. 0)\<rparr>"

text \<open>Operations: one that fails on every call, and one that fails twice and then succeeds.\<close>

definition boom :: error where
  "boom = ErrorString ''boom''"

definition always_fails :: "nat Operation" where
  "always_fails i = (0, Some boom)"

definition succeeds :: "nat Operation" where
  "succeeds i = (42, None)"

definition fails_twice :: "nat Operation" where
  "fails_twice i = (if i < 3 then (0, Some boom) else (42, None))"

text \<open>\<^verbatim>\<open>func() (int, error) { return 0, Permanent(errors.New("x")) }\<close>\<close>

definition always_permanent :: "nat Operation" where
  "always_permanent i = (0, Permanent (Some (ErrorString ''x'')))"

text \<open>An operation that returns \<^verbatim>\<open>RetryAfter(1)\<close> once and then succeeds.\<close>

definition retry_after_once :: "nat Operation" where
  "retry_after_once i = (if i = 1 then (0, RetryAfter 1) else (42, None))"

text \<open>
  An operation that fails, then returns \<^verbatim>\<open>RetryAfter(3)\<close>, then fails again, then
  succeeds.
\<close>

definition retry_after_second :: "nat Operation" where
  "retry_after_second i =
     (if i = 1 then (0, Some boom) else if i = 2 then (0, RetryAfter 3)
      else if i = 3 then (0, Some boom) else (42, None))"

definition ticking :: "Duration env" where
  "ticking = \<lparr>NewExponentialBackOff = doubling, time_Since = (\<lambda>i. int i)\<rparr>"

definition slow :: "Duration env" where
  "slow = \<lparr>NewExponentialBackOff = doubling, time_Since = (\<lambda>i. int i * (10 * Minute))\<rparr>"

section \<open>Logs and outcomes\<close>

lemma events_before [simp]: "events (before evs out) = evs @ events out"
  by (cases out) simp_all

lemma before_before [simp]: "before xs (before ys out) = before (xs @ ys) out"
  by (cases out) simp_all

lemma before_Nil [simp]: "before [] out = out"
  by (cases out) simp_all

lemma before_eq_Returned:
  "before evs out = Returned x n res err b tr \<longleftrightarrow>
     (\<exists>tr'. out = Returned x n res err b tr' \<and> tr = evs @ tr')"
  by (cases out) auto

lemma before_eq_Running:
  "before evs out = Running tr \<longleftrightarrow> (\<exists>tr'. out = Running tr' \<and> tr = evs @ tr')"
  by (cases out) auto

lemma deferred_eq_Returned:
  "deferred t out = Returned x n res err b tr \<longleftrightarrow>
     (\<exists>tr'. out = Returned x n res err b tr' \<and> tr = tr' @ [CallTimerStop t])"
  by (cases out) auto

lemma deferred_eq_Running: "deferred t out = Running tr \<longleftrightarrow> out = Running tr"
  by (cases out) auto

lemma invocations_append [simp]: "invocations (xs @ ys) = invocations xs @ invocations ys"
  by (induction xs rule: invocations.induct) simp_all

lemma invocations_notify [simp]: "invocations (notify cb oerr d) = []"
  by (simp add: notify_def split: option.splits)

section \<open>One pass of the loop\<close>

lemma attempt_invocations:
  "attempt e ctx operation args n b = (evs, st) \<Longrightarrow> invocations evs = [n]"
  by (auto simp: attempt_def split: prod.splits option.splits if_splits)

lemma attempt_first:
  "attempt e ctx operation args n b = (evs, st) \<Longrightarrow>
     \<exists>rest. evs = CallOperation n (snd (operation n)) # rest"
  by (auto simp: attempt_def split: prod.splits option.splits if_splits)

section \<open>The loop\<close>

text \<open>
  A call that has returned did so in a pass of the loop that took a \<^verbatim>\<open>return\<close>, after
  passes numbered from the start up to it.
\<close>

lemma loop_Returned_attempt:
  "Retry_loop fuel e ctx operation args n b = Returned x m res err b' tr \<Longrightarrow>
     \<exists>bm pre evs. attempt e ctx operation args m bm = (evs, Return x res err b') \<and>
       tr = pre @ evs \<and> n \<le> m \<and> invocations pre = [n..<m]"
proof (induction fuel arbitrary: n b tr)
  case 0
  then show ?case by simp
next
  case (Suc fuel)
  obtain evs st where a: "attempt e ctx operation args n b = (evs, st)"
    by (cases "attempt e ctx operation args n b")
  show ?case
  proof (cases st)
    case (Return x' res' err' b'')
    with Suc.prems a have "attempt e ctx operation args m b = (tr, Return x res err b')" "n = m"
      by auto
    then show ?thesis by (intro exI[of _ b] exI[of _ "[]"] exI[of _ tr]) simp
  next
    case (Continue b'')
    with Suc.prems a obtain tr' where
      r: "Retry_loop fuel e ctx operation args (Suc n) b'' = Returned x m res err b' tr'"
      and tr: "tr = evs @ tr'"
      by (auto simp: before_eq_Returned)
    from Suc.IH[OF r] obtain bm pre evs' where
      h: "attempt e ctx operation args m bm = (evs', Return x res err b')"
        "tr' = pre @ evs'" "Suc n \<le> m" "invocations pre = [Suc n..<m]"
      by blast
    have "invocations (evs @ pre) = [n..<m]"
      using attempt_invocations[OF a] h(3,4) by (simp add: upt_conv_Cons)
    with h tr show ?thesis
      by (intro exI[of _ bm] exI[of _ "evs @ pre"] exI[of _ evs']) simp
  qed
qed

lemma NextBackOff_impls [simp]:
  "NextBackOff_impl (snd (NextBackOff b)) = NextBackOff_impl b"
  "Reset_impl (snd (NextBackOff b)) = Reset_impl b"
  by (simp_all add: NextBackOff_def split: prod.splits)

lemma fst_NextBackOff: "fst (NextBackOff b) = fst (NextBackOff_impl b (bstate b))"
  by (simp add: NextBackOff_def split: prod.splits)

lemma attempt_Continue:
  assumes "retried e ctx operation args n" and "fst (NextBackOff b) \<noteq> Stop"
  shows "\<exists>evs. attempt e ctx operation args n b = (evs, Continue (snd (NextBackOff b)))"
  using assms
  by (auto simp: attempt_def retried_def passes_tests_def split: prod.splits option.splits)

lemma attempt_Continue_iff:
  "(\<exists>evs. attempt e ctx operation args n b = (evs, Continue b')) \<longleftrightarrow>
     retried e ctx operation args n \<and> fst (NextBackOff b) \<noteq> Stop \<and> b' = snd (NextBackOff b)"
  by (auto simp: attempt_def retried_def passes_tests_def split: prod.splits option.splits)

lemma delay_0: "delay b 0 = fst (NextBackOff b)"
  by (simp add: delay_def fst_NextBackOff)

lemma delay_Suc: "delay b (Suc k) = delay (snd (NextBackOff b)) k"
proof -
  have "snd (NextBackOff b) = b\<lparr>bstate := snd (NextBackOff_impl b (bstate b))\<rparr>"
    by (simp add: NextBackOff_def split: prod.splits)
  moreover define f where "f = (\<lambda>s. snd (NextBackOff_impl b s))"
  moreover have "f ((f ^^ k) s) = (f ^^ k) (f s)" for s
    by (rule funpow_swap1)
  ultimately show ?thesis
    by (simp add: delay_def)
qed

lemma loop_continues:
  assumes "\<forall>i. n \<le> i \<and> i < n + k \<longrightarrow> retried e ctx operation args i \<and> delay b (i - n) \<noteq> Stop"
  shows "\<exists>evs b'. Retry_loop (k + fuel) e ctx operation args n b =
            before evs (Retry_loop fuel e ctx operation args (n + k) b') \<and>
          invocations evs = [n..<n + k] \<and> (\<forall>j. delay b' j = delay b (k + j))"
  using assms
proof (induction k arbitrary: n b)
  case 0
  show ?case by (intro exI[of _ "[]"] exI[of _ b]) simp
next
  case (Suc k)
  have "retried e ctx operation args n" using Suc.prems by simp
  moreover have ns: "fst (NextBackOff b) \<noteq> Stop"
    using Suc.prems[rule_format, of n] by (simp add: delay_0)
  ultimately obtain evs where
    a: "attempt e ctx operation args n b = (evs, Continue (snd (NextBackOff b)))"
    using attempt_Continue by blast
  let ?b = "snd (NextBackOff b)"
  have "\<forall>i. Suc n \<le> i \<and> i < Suc n + k \<longrightarrow>
      retried e ctx operation args i \<and> delay ?b (i - Suc n) \<noteq> Stop"
  proof (intro allI impI)
    fix i assume i: "Suc n \<le> i \<and> i < Suc n + k"
    then have "retried e ctx operation args i \<and> delay b (i - n) \<noteq> Stop"
      using Suc.prems by simp
    moreover have "i - n = Suc (i - Suc n)" using i by arith
    ultimately show "retried e ctx operation args i \<and> delay ?b (i - Suc n) \<noteq> Stop"
      by (simp add: delay_Suc)
  qed
  then obtain evs' b' where
    r: "Retry_loop (k + fuel) e ctx operation args (Suc n) ?b =
          before evs' (Retry_loop fuel e ctx operation args (Suc n + k) b')"
      "invocations evs' = [Suc n..<Suc n + k]" "\<forall>j. delay b' j = delay ?b (k + j)"
    using Suc.IH[of "Suc n" ?b] by blast
  have "invocations (evs @ evs') = [n..<n + Suc k]"
    using attempt_invocations[OF a] r(2) by (simp add: upt_conv_Cons)
  moreover have "\<forall>j. delay b' j = delay b (Suc k + j)"
    using r(3) by (simp add: delay_Suc)
  ultimately show ?case using a r(1)
    by (intro exI[of _ "evs @ evs'"] exI[of _ b']) simp
qed

lemma attempt_Return_facts:
  assumes "attempt e ctx operation args n b = (evs, Return x res err b')"
  shows "res = fst (operation n)"
    and "x = Success \<longleftrightarrow> snd (operation n) = None"
    and "x = MaxTriesReached \<longleftrightarrow>
           snd (operation n) \<noteq> None \<and> MaxTries args > 0 \<and> n \<ge> MaxTries args"
    and "x = MaxElapsedTimeExceeded \<longleftrightarrow>
           snd (operation n) \<noteq> None \<and> \<not> (MaxTries args > 0 \<and> n \<ge> MaxTries args) \<and>
           time_Since e n > MaxElapsedTime args"
    and "x \<noteq> CancelledBeforeWait \<and> x \<noteq> CancelledDuringWait \<longrightarrow> err = snd (operation n)"
    and "x = CancelledBeforeWait \<longrightarrow> err = Err_before_wait ctx n \<and> err \<noteq> None"
    and "x = CancelledDuringWait \<longrightarrow> err = Done_during_wait ctx n \<and> err \<noteq> None"
  using assms
  by (auto simp: attempt_def split: prod.splits option.splits if_splits intro: sym)

lemma Retry_Returned:
  assumes "Retry fuel e ctx operation opts = Returned x m res err b tr"
  shows "\<exists>bm pre evs. attempt e ctx operation (applyOptions e opts) m bm = (evs, Return x res err b) \<and>
           tr = CallNow # CallReset # pre @ evs @ [CallTimerStop (Timer (applyOptions e opts))] \<and>
           1 \<le> m \<and> invocations pre = [1..<m]"
proof -
  from assms obtain tr' where
    "Retry_loop fuel e ctx operation (applyOptions e opts) 1 (Reset (BackOff (applyOptions e opts)))
       = Returned x m res err b tr'"
    and tr: "tr = CallNow # CallReset # tr' @ [CallTimerStop (Timer (applyOptions e opts))]"
    by (auto simp: Retry_def Let_def deferred_eq_Returned before_eq_Returned)
  from loop_Returned_attempt[OF this(1)] tr show ?thesis
    by auto
qed

lemma loop_passes_retried:
  "Retry_loop fuel e ctx operation args n b = Returned x m res err b' tr \<Longrightarrow>
     n \<le> i \<Longrightarrow> i < m \<Longrightarrow> retried e ctx operation args i"
proof (induction fuel arbitrary: n b tr)
  case 0
  then show ?case by simp
next
  case (Suc fuel)
  obtain evs st where a: "attempt e ctx operation args n b = (evs, st)"
    by (cases "attempt e ctx operation args n b")
  show ?case
  proof (cases st)
    case (Return x' res' err' b'')
    with Suc.prems a show ?thesis by auto
  next
    case (Continue b'')
    with a have rn: "retried e ctx operation args n"
      using attempt_Continue_iff[of e ctx operation args n b b''] by blast
    from Continue Suc.prems a obtain tr' where
      r: "Retry_loop fuel e ctx operation args (Suc n) b'' = Returned x m res err b' tr'"
      by (auto simp: before_eq_Returned)
    show ?thesis
    proof (cases "i = n")
      case True
      with rn show ?thesis by simp
    next
      case False
      with Suc.prems have "Suc n \<le> i" by simp
      from Suc.IH[OF r this Suc.prems(3)] show ?thesis .
    qed
  qed
qed

lemma loop_Running:
  "Retry_loop fuel e ctx operation args n b = Running tr \<Longrightarrow>
     invocations tr = [n..<n + fuel] \<and> (\<forall>i. n \<le> i \<and> i < n + fuel \<longrightarrow> retried e ctx operation args i)"
proof (induction fuel arbitrary: n b tr)
  case 0
  then show ?case by auto
next
  case (Suc fuel)
  obtain evs st where a: "attempt e ctx operation args n b = (evs, st)"
    by (cases "attempt e ctx operation args n b")
  show ?case
  proof (cases st)
    case (Return x' res' err' b'')
    with Suc.prems a show ?thesis by auto
  next
    case (Continue b'')
    with a have rn: "retried e ctx operation args n"
      using attempt_Continue_iff[of e ctx operation args n b b''] by blast
    from Continue Suc.prems a obtain tr' where
      r: "Retry_loop fuel e ctx operation args (Suc n) b'' = Running tr'" and tr: "tr = evs @ tr'"
      by (auto simp: before_eq_Running)
    from Suc.IH[OF r] have ih: "invocations tr' = [Suc n..<Suc n + fuel]"
      "\<forall>i. Suc n \<le> i \<and> i < Suc n + fuel \<longrightarrow> retried e ctx operation args i" by auto
    have "invocations tr = [n..<n + Suc fuel]"
      using attempt_invocations[OF a] ih(1) tr by (simp add: upt_conv_Cons)
    moreover have "\<forall>i. n \<le> i \<and> i < n + Suc fuel \<longrightarrow> retried e ctx operation args i"
    proof (intro allI impI)
      fix i assume "n \<le> i \<and> i < n + Suc fuel"
      then show "retried e ctx operation args i"
        using rn ih(2) by (cases "i = n") auto
    qed
    ultimately show ?thesis by blast
  qed
qed

lemma retried_MaxTries: "retried e ctx operation args i \<Longrightarrow> 0 < MaxTries args \<Longrightarrow> i < MaxTries args"
  by (auto simp: retried_def passes_tests_def split: option.splits)

lemma Retry_Returned_retried:
  assumes "Retry fuel e ctx operation opts = Returned x m res err b tr"
    and "1 \<le> i" "i < m"
  shows "retried e ctx operation (applyOptions e opts) i"
proof -
  from assms(1) obtain tr' where
    "Retry_loop fuel e ctx operation (applyOptions e opts) 1 (Reset (BackOff (applyOptions e opts)))
       = Returned x m res err b tr'"
    by (auto simp: Retry_def Let_def deferred_eq_Returned before_eq_Returned)
  from loop_passes_retried[OF this assms(2,3)] show ?thesis .
qed

lemma Retry_Returned_invocations:
  assumes "Retry fuel e ctx operation opts = Returned x m res err b tr"
  shows "invocations tr = [1..<Suc m]"
proof -
  from Retry_Returned[OF assms] obtain bm pre evs where
    h: "attempt e ctx operation (applyOptions e opts) m bm = (evs, Return x res err b)"
      "tr = CallNow # CallReset # pre @ evs @ [CallTimerStop (Timer (applyOptions e opts))]"
      "1 \<le> m" "invocations pre = [1..<m]"
    by blast
  show ?thesis using attempt_invocations[OF h(1)] h(2,3,4) by simp
qed

text \<open>The definitions that a run on concrete collaborators unfolds.\<close>

lemmas unfolds = Retry_def applyOptions_def defaultOptions_def attempt_def NextBackOff_def Reset_def notify_def
  WithMaxElapsedTime_def WithMaxTries_def WithBackOff_def WithNotify_def WithTimer_def
  ticking_def slow_def still_def background_def cancelled_def cancelled_in_wait_def cancelled_from_def Canceled_def succeeds_def doubling_def stopping_def
  always_fails_def fails_twice_def always_permanent_def retry_after_once_def retry_after_second_def RetryAfter_def boom_def
  Stop_def Millisecond_def DefaultMaxElapsedTime_def Minute_def Second_def

section \<open>The elapsed-time test\<close>

text \<open>
  C2, as the code has it. A \<^verbatim>\<open>MaxElapsedTime\<close> of zero or less does not switch the test
  \<^verbatim>\<open>time.Since(startedAt) > args.MaxElapsedTime\<close> off. A call that returns does so
  through that test, in pass \<open>n\<close>, exactly when the \<open>n\<close>-th invocation failed, the
  \<^verbatim>\<open>MaxTries\<close> test before it did not hold, and the time since the start is
  strictly greater than \<^verbatim>\<open>MaxElapsedTime\<close>, whatever the sign of \<^verbatim>\<open>MaxElapsedTime\<close>. So
  when the first invocation fails, \<^verbatim>\<open>MaxTries\<close> is not 1 and the clock reads more
  than \<^verbatim>\<open>MaxElapsedTime\<close>, the call returns there, after one invocation, with the
  operation's result and error.
\<close>

theorem MaxElapsedTime_test:
  assumes "args = applyOptions e opts"
  shows
    "(\<forall>x n res err b tr. Retry fuel e ctx operation opts = Returned x n res err b tr \<longrightarrow>
        (x = MaxElapsedTimeExceeded \<longleftrightarrow>
           snd (operation n) \<noteq> None \<and> \<not> (MaxTries args > 0 \<and> n \<ge> MaxTries args) \<and>
           time_Since e n > MaxElapsedTime args)) \<and>
     (snd (operation 1) \<noteq> None \<and> MaxTries args \<noteq> 1 \<and> time_Since e 1 > MaxElapsedTime args \<longrightarrow>
        Retry (Suc fuel) e ctx operation opts =
          Returned MaxElapsedTimeExceeded 1 (fst (operation 1)) (snd (operation 1))
            (Reset (BackOff args))
            [CallNow, CallReset, CallOperation 1 (snd (operation 1)), CallSince (time_Since e 1),
             CallTimerStop (Timer args)])"
proof (intro conjI allI impI)
  fix x n res err b tr
  assume "Retry fuel e ctx operation opts = Returned x n res err b tr"
  from Retry_Returned[OF this] obtain bm evs where
    "attempt e ctx operation args n bm = (evs, Return x res err b)"
    using assms by blast
  from attempt_Return_facts(4)[OF this]
  show "x = MaxElapsedTimeExceeded \<longleftrightarrow>
           snd (operation n) \<noteq> None \<and> \<not> (MaxTries args > 0 \<and> n \<ge> MaxTries args) \<and>
           time_Since e n > MaxElapsedTime args" .
next
  assume h: "snd (operation 1) \<noteq> None \<and> MaxTries args \<noteq> 1 \<and> time_Since e 1 > MaxElapsedTime args"
  then have "attempt e ctx operation args 1 (Reset (BackOff args)) =
      ([CallOperation 1 (snd (operation 1)), CallSince (time_Since e 1)],
       Return MaxElapsedTimeExceeded (fst (operation 1)) (snd (operation 1)) (Reset (BackOff args)))"
    by (auto simp: attempt_def split: prod.splits option.splits)
  then show "Retry (Suc fuel) e ctx operation opts =
          Returned MaxElapsedTimeExceeded 1 (fst (operation 1)) (snd (operation 1))
            (Reset (BackOff args))
            [CallNow, CallReset, CallOperation 1 (snd (operation 1)), CallSince (time_Since e 1),
             CallTimerStop (Timer args)]"
    using assms by (simp add: Retry_def Let_def)
qed

text \<open>
  The theorem at \<^verbatim>\<open>MaxElapsedTime = -5ns\<close>, with a clock that reads 1 ns in the first
  pass.
\<close>

theorem MaxElapsedTime_test_witness:
  "Retry 1 ticking background always_fails [WithMaxElapsedTime (- 5)] =
     Returned MaxElapsedTimeExceeded 1 0 (Some boom) (Reset doubling)
       [CallNow, CallReset, CallOperation 1 (Some boom), CallSince 1, CallTimerStop defaultTimer] \<and>
   MaxElapsedTime (applyOptions ticking [WithMaxElapsedTime (- 5)]) < time_Since ticking 1"
proof -
  let ?opts = "[WithMaxElapsedTime (- 5)] :: Duration RetryOption list"
  let ?args = "applyOptions ticking ?opts"
  note t0 = MaxElapsedTime_test[where e = ticking and opts = ?opts and fuel = 0
      and ctx = background and operation = always_fails, OF refl]
  note t1 = MaxElapsedTime_test[where e = ticking and opts = ?opts and fuel = 1
      and ctx = background and operation = always_fails, OF refl]
  have h: "snd (always_fails 1) \<noteq> None \<and> MaxTries ?args \<noteq> 1 \<and>
      time_Since ticking 1 > MaxElapsedTime ?args"
    by (simp add: unfolds)
  from t0 h have r: "Retry (Suc 0) ticking background always_fails ?opts =
      Returned MaxElapsedTimeExceeded 1 (fst (always_fails 1)) (snd (always_fails 1))
        (Reset (BackOff ?args))
        [CallNow, CallReset, CallOperation 1 (snd (always_fails 1)),
         CallSince (time_Since ticking 1), CallTimerStop (Timer ?args)]"
    by blast
  with t1 have reason: "snd (always_fails 1) \<noteq> None \<and>
      \<not> (MaxTries ?args > 0 \<and> 1 \<ge> MaxTries ?args) \<and>
      time_Since ticking 1 > MaxElapsedTime ?args"
    by (metis One_nat_def)
  have args: "BackOff ?args = doubling" "Timer ?args = defaultTimer"
    by (simp_all add: applyOptions_def defaultOptions_def WithMaxElapsedTime_def ticking_def)
  have clock: "time_Since ticking i = int i" for i
    by (simp add: ticking_def)
  from r reason show ?thesis
    by (simp add: args always_fails_def clock)
qed

text \<open>
  The claim as the specification states it fails: with \<^verbatim>\<open>MaxElapsedTime = 0\<close> and one
  nanosecond on the clock, \<^verbatim>\<open>Retry\<close> returns through the elapsed-time test after the
  first failure.
\<close>

theorem MaxElapsedTime_zero_counterexample:
  "MaxElapsedTime (applyOptions ticking [WithMaxElapsedTime 0]) \<le> 0 \<and>
   Retry 1 ticking background always_fails [WithMaxElapsedTime 0] =
     Returned MaxElapsedTimeExceeded 1 0 (Some boom) (Reset doubling)
       [CallNow, CallReset, CallOperation 1 (Some boom), CallSince 1, CallTimerStop defaultTimer]"
  by (simp add: unfolds)

section \<open>The limit on the number of tries\<close>

lemma delay_doubling: "delay (Reset doubling) k = 2 ^ k * (500 * Millisecond)"
proof -
  have "((\<lambda>s. snd (NextBackOff_impl doubling s)) ^^ k) s = 2 ^ k * s" for s :: Duration
    by (induction k) (simp_all add: doubling_def)
  then show ?thesis by (simp add: delay_def Reset_def doubling_def)
qed

lemma delay_doubling_not_Stop: "delay (Reset doubling) k \<noteq> Stop"
proof -
  have "(0::int) < 2 ^ k * (500 * Millisecond)"
    by (simp add: Millisecond_def)
  then show ?thesis
    unfolding delay_doubling Stop_def by linarith
qed

text \<open>
  C4, as the code has it. The \<^verbatim>\<open>MaxTries\<close> test is one of several exits, so an
  operation that always fails is not always invoked \<^verbatim>\<open>MaxTries\<close> times.
  \<^item> With \<^verbatim>\<open>MaxTries = n > 0\<close>: when each of the passes \<open>1, ..., n - 1\<close> is retried (the
    operation fails there with an error that is not permanent, the clock does not
    exceed \<^verbatim>\<open>MaxElapsedTime\<close>, the generator's delay is not \<^verbatim>\<open>Stop\<close>, the context is not
    cancelled before or during the wait) and the \<open>n\<close>-th invocation fails, \<^verbatim>\<open>Retry\<close>
    returns at the \<^verbatim>\<open>MaxTries\<close> test in pass \<open>n\<close>, with the result and the error of
    the \<open>n\<close>-th invocation as they are, after the invocations \<open>1, ..., n\<close> and no other.
  \<^item> Every call that returns, in pass \<open>m\<close>, has made the invocations \<open>1, ..., m\<close> and no
    other; with \<^verbatim>\<open>MaxTries > 0\<close>, \<open>m\<close> is at most \<^verbatim>\<open>MaxTries\<close>; with \<^verbatim>\<open>MaxTries = 0\<close> the
    return is never the one of the \<^verbatim>\<open>MaxTries\<close> test; and a return at the \<^verbatim>\<open>MaxTries\<close>
    test is in pass \<^verbatim>\<open>MaxTries\<close> with the result and error of that invocation.
\<close>

theorem MaxTries_test:
  assumes "args = applyOptions e opts"
  shows
    "(0 < MaxTries args \<and>
      (\<forall>i. 1 \<le> i \<and> i < MaxTries args \<longrightarrow>
         retried e ctx operation args i \<and> delay (Reset (BackOff args)) (i - 1) \<noteq> Stop) \<and>
      snd (operation (MaxTries args)) \<noteq> None \<longrightarrow>
        (\<exists>b tr. Retry (MaxTries args + fuel) e ctx operation opts =
            Returned MaxTriesReached (MaxTries args) (fst (operation (MaxTries args)))
              (snd (operation (MaxTries args))) b tr \<and>
          invocations tr = [1..<Suc (MaxTries args)])) \<and>
     (\<forall>x m res err b tr. Retry fuel e ctx operation opts = Returned x m res err b tr \<longrightarrow>
        invocations tr = [1..<Suc m] \<and>
        (0 < MaxTries args \<longrightarrow> m \<le> MaxTries args) \<and>
        (MaxTries args = 0 \<longrightarrow> x \<noteq> MaxTriesReached) \<and>
        (x = MaxTriesReached \<longrightarrow>
           m = MaxTries args \<and> res = fst (operation m) \<and> err = snd (operation m) \<and> err \<noteq> None))"
proof (intro conjI allI impI)
  assume h: "0 < MaxTries args \<and>
      (\<forall>i. 1 \<le> i \<and> i < MaxTries args \<longrightarrow>
         retried e ctx operation args i \<and> delay (Reset (BackOff args)) (i - 1) \<noteq> Stop) \<and>
      snd (operation (MaxTries args)) \<noteq> None"
  define n where "n = MaxTries args"
  obtain k where k: "n = 1 + k" using h by (cases n) (auto simp: n_def)
  have "\<forall>i. 1 \<le> i \<and> i < 1 + k \<longrightarrow>
      retried e ctx operation args i \<and> delay (Reset (BackOff args)) (i - 1) \<noteq> Stop"
    using h k by (simp add: n_def)
  from loop_continues[OF this, of "Suc fuel"] obtain evs b' where
    r: "Retry_loop (k + Suc fuel) e ctx operation args 1 (Reset (BackOff args)) =
          before evs (Retry_loop (Suc fuel) e ctx operation args n b')"
      "invocations evs = [1..<n]"
    using k by auto
  from h have a: "attempt e ctx operation args n b' =
      ([CallOperation n (snd (operation n))],
       Return MaxTriesReached (fst (operation n)) (snd (operation n)) b')"
    by (auto simp: attempt_def n_def split: prod.splits option.splits)
  have fuel: "MaxTries args + fuel = k + Suc fuel" using k by (simp add: n_def)
  have "Retry (MaxTries args + fuel) e ctx operation opts =
      Returned MaxTriesReached n (fst (operation n)) (snd (operation n)) b'
        (CallNow # CallReset # evs @ [CallOperation n (snd (operation n)), CallTimerStop (Timer args)])"
    using r(1) a assms unfolding fuel by (simp add: Retry_def Let_def)
  moreover have "invocations (CallNow # CallReset # evs @
      [CallOperation n (snd (operation n)), CallTimerStop (Timer args)]) = [1..<Suc n]"
    using r(2) k by simp
  ultimately show "\<exists>b tr. Retry (MaxTries args + fuel) e ctx operation opts =
            Returned MaxTriesReached (MaxTries args) (fst (operation (MaxTries args)))
              (snd (operation (MaxTries args))) b tr \<and>
          invocations tr = [1..<Suc (MaxTries args)]"
    unfolding n_def by blast
next
  fix x m res err b tr
  assume r: "Retry fuel e ctx operation opts = Returned x m res err b tr"
  show "invocations tr = [1..<Suc m]"
    by (rule Retry_Returned_invocations[OF r])
  from Retry_Returned[OF r] obtain bm evs where
    a: "attempt e ctx operation args m bm = (evs, Return x res err b)" and m: "1 \<le> m"
    using assms by blast
  note f = attempt_Return_facts[OF a]
  show le: "m \<le> MaxTries args" if "0 < MaxTries args"
  proof (cases "m = 1")
    case True
    with that show ?thesis by simp
  next
    case False
    with m have "1 \<le> m - 1" "m - 1 < m" by simp_all
    from Retry_Returned_retried[OF r this] have "retried e ctx operation args (m - 1)"
      using assms by simp
    from retried_MaxTries[OF this that] show ?thesis by simp
  qed
  show "x \<noteq> MaxTriesReached" if "MaxTries args = 0"
    using f(3) that by simp
  show "m = MaxTries args" if "x = MaxTriesReached"
    using f(3) that le by auto
  show "res = fst (operation m)" if "x = MaxTriesReached"
    using f(1) by simp
  show "err = snd (operation m)" if "x = MaxTriesReached"
    using f(5) that by simp
  show "err \<noteq> None" if "x = MaxTriesReached"
    using f(3,5) that by auto
qed


text \<open>
  The theorem at \<^verbatim>\<open>MaxTries = 2\<close>, with the default generator and elapsed-time limit,
  a clock that stands still and a context that is never cancelled.
\<close>

theorem MaxTries_test_witness:
  "(\<exists>b tr. Retry 3 still background always_fails [WithMaxTries 2] =
       Returned MaxTriesReached 2 0 (Some boom) b tr \<and> invocations tr = [1, 2] \<and>
       invocations tr = [1..<Suc (MaxTries (applyOptions still [WithMaxTries 2]))])"
proof -
  let ?opts = "[WithMaxTries 2] :: Duration RetryOption list"
  let ?args = "applyOptions still ?opts"
  note t = MaxTries_test[where e = still and opts = ?opts and fuel = 1
      and ctx = background and operation = always_fails, OF refl]
  note t3 = MaxTries_test[where e = still and opts = ?opts and fuel = 3
      and ctx = background and operation = always_fails, OF refl]
  have args: "MaxTries ?args = 2" "BackOff ?args = doubling"
    "MaxElapsedTime ?args = DefaultMaxElapsedTime"
    by (simp_all add: applyOptions_def defaultOptions_def WithMaxTries_def still_def)
  have clock: "time_Since still i = 0" for i
    by (simp add: still_def)
  have "retried still background always_fails ?args i" if "i < 2" for i
    using that by (simp add: retried_def passes_tests_def args always_fails_def boom_def clock background_def
        DefaultMaxElapsedTime_def Minute_def Second_def)
  moreover have "delay (Reset (BackOff ?args)) k \<noteq> Stop" for k
    by (simp add: args delay_doubling_not_Stop)
  ultimately have "0 < MaxTries ?args \<and>
      (\<forall>i. 1 \<le> i \<and> i < MaxTries ?args \<longrightarrow>
         retried still background always_fails ?args i \<and>
         delay (Reset (BackOff ?args)) (i - 1) \<noteq> Stop) \<and>
      snd (always_fails (MaxTries ?args)) \<noteq> None"
    by (simp add: args(1) always_fails_def)
  with t have "\<exists>b tr. Retry (MaxTries ?args + 1) still background always_fails ?opts =
      Returned MaxTriesReached (MaxTries ?args) (fst (always_fails (MaxTries ?args)))
        (snd (always_fails (MaxTries ?args))) b tr \<and>
      invocations tr = [1..<Suc (MaxTries ?args)]"
    by blast
  then obtain b tr where run: "Retry 3 still background always_fails ?opts =
      Returned MaxTriesReached 2 0 (Some boom) b tr"
    by (auto simp: args(1) always_fails_def)
  with t3 have "invocations tr = [1..<Suc 2] \<and> 2 = MaxTries ?args"
    by blast
  moreover have "[1..<Suc 2] = [1, 2]"
    by (simp add: upt_rec)
  ultimately show ?thesis
    using run by auto
qed

text \<open>
  The claim as the specification states it fails: with \<^verbatim>\<open>MaxTries = 3\<close>, the default
  \<^verbatim>\<open>MaxElapsedTime\<close> of 15 minutes and an operation that always fails and takes ten
  minutes each time, \<^verbatim>\<open>Retry\<close> returns at the elapsed-time test after two
  invocations.
\<close>

theorem MaxTries_counterexample:
  "MaxTries (applyOptions slow [WithMaxTries 3]) = 3 \<and>
   Retry 3 slow background always_fails [WithMaxTries 3] =
     Returned MaxElapsedTimeExceeded 2 0 (Some boom) (doubling\<lparr>bstate := 1000 * Millisecond\<rparr>)
       [CallNow, CallReset,
        CallOperation 1 (Some boom), CallSince (10 * Minute), CallNextBackOff (500 * Millisecond),
        CallCtxErr None, CallTimerStart defaultTimer (500 * Millisecond), CallSelect TimerFired,
        CallOperation 2 (Some boom), CallSince (20 * Minute), CallTimerStop defaultTimer]"
  by (simp add: unfolds numeral_3_eq_3)


section \<open>At least one invocation, and success\<close>

lemma events_deferred:
  "events (deferred t out) = events out @ (case out of Returned x n res err b tr \<Rightarrow> [CallTimerStop t] | Running tr \<Rightarrow> [])"
  by (cases out) simp_all

lemma attempt_success_event:
  assumes "attempt e ctx operation args n b = (evs, st)" and "CallOperation i None \<in> set evs"
  shows "i = n \<and> snd (operation n) = None \<and> st = Return Success (fst (operation n)) None b \<and>
         evs = [CallOperation n None]"
  using assms
  by (auto simp: attempt_def notify_def split: prod.splits option.splits if_splits)

lemma loop_success_event:
  "CallOperation i None \<in> set (events (Retry_loop fuel e ctx operation args n b)) \<Longrightarrow>
     \<exists>b' pre. Retry_loop fuel e ctx operation args n b =
       Returned Success i (fst (operation i)) None b' (pre @ [CallOperation i None])"
proof (induction fuel arbitrary: n b)
  case 0
  then show ?case by simp
next
  case (Suc fuel)
  obtain evs st where a: "attempt e ctx operation args n b = (evs, st)"
    by (cases "attempt e ctx operation args n b")
  show ?case
  proof (cases "CallOperation i None \<in> set evs")
    case True
    from attempt_success_event[OF a True] a show ?thesis
      by (intro exI[of _ b] exI[of _ "[]"]) simp
  next
    case False
    show ?thesis
    proof (cases st)
      case (Return x res err b'')
      with Suc.prems a False show ?thesis by simp
    next
      case (Continue b'')
      with Suc.prems a False
      have "CallOperation i None \<in> set (events (Retry_loop fuel e ctx operation args (Suc n) b''))"
        by simp
      from Suc.IH[OF this] obtain b' pre where
        "Retry_loop fuel e ctx operation args (Suc n) b'' =
           Returned Success i (fst (operation i)) None b' (pre @ [CallOperation i None])"
        by blast
      with a Continue show ?thesis
        by (intro exI[of _ b'] exI[of _ "evs @ pre"]) simp
    qed
  qed
qed

text \<open>
  C6, as the code has it.
  \<^item> For every input the first thing the loop does is to invoke the operation: a
    call that has started its first pass has logged the first invocation,
    whether or not it ever returns.
  \<^item> Whenever an invocation returns a nil error, \<^verbatim>\<open>Retry\<close> returns at once, with that
    invocation's result and a nil error: the invocation is the last call before
    the deferred \<^verbatim>\<open>Timer.Stop\<close>.
  \<^item> An operation that fails twice and then succeeds is invoked exactly three
    times, and \<^verbatim>\<open>Retry\<close> returns the third result with a nil error, when the
    passes 1 and 2 are retried: the two errors are not permanent, \<^verbatim>\<open>MaxTries\<close> is 0
    or more than 2, the clock does not exceed \<^verbatim>\<open>MaxElapsedTime\<close>, the generator's
    first two delays are not \<^verbatim>\<open>Stop\<close>, and the context is not cancelled before or
    during the two waits.
\<close>

theorem invoked_once_and_success_returns:
  assumes "args = applyOptions e opts"
  shows
    "(\<exists>rest. events (Retry (Suc fuel) e ctx operation opts) =
         CallNow # CallReset # CallOperation 1 (snd (operation 1)) # rest) \<and>
     (\<forall>i. CallOperation i None \<in> set (events (Retry fuel e ctx operation opts)) \<longrightarrow>
        (\<exists>b pre. Retry fuel e ctx operation opts =
           Returned Success i (fst (operation i)) None b
             (pre @ [CallOperation i None, CallTimerStop (Timer args)]))) \<and>
     (retried e ctx operation args 1 \<and> delay (Reset (BackOff args)) 0 \<noteq> Stop \<and>
      retried e ctx operation args 2 \<and> delay (Reset (BackOff args)) 1 \<noteq> Stop \<and>
      snd (operation 3) = None \<longrightarrow>
        (\<exists>b tr. Retry (3 + fuel) e ctx operation opts =
            Returned Success 3 (fst (operation 3)) None b tr \<and>
          invocations tr = [1, 2, 3]))"
proof (intro conjI allI impI)
  obtain evs st where a: "attempt e ctx operation args 1 (Reset (BackOff args)) = (evs, st)"
    by (cases "attempt e ctx operation args 1 (Reset (BackOff args))")
  from attempt_first[OF a] obtain rest where "evs = CallOperation 1 (snd (operation 1)) # rest"
    by blast
  with a assms show "\<exists>rest. events (Retry (Suc fuel) e ctx operation opts) =
         CallNow # CallReset # CallOperation 1 (snd (operation 1)) # rest"
    by (cases st) (auto simp: Retry_def Let_def events_deferred)
next
  fix i
  assume "CallOperation i None \<in> set (events (Retry fuel e ctx operation opts))"
  then have "CallOperation i None \<in>
      set (events (Retry_loop fuel e ctx operation args 1 (Reset (BackOff args))))"
    using assms
    by (cases "Retry_loop fuel e ctx operation args 1 (Reset (BackOff args))")
      (auto simp: Retry_def Let_def)
  from loop_success_event[OF this] assms
  show "\<exists>b pre. Retry fuel e ctx operation opts =
           Returned Success i (fst (operation i)) None b
             (pre @ [CallOperation i None, CallTimerStop (Timer args)])"
    by (auto simp: Retry_def Let_def)
next
  assume h: "retried e ctx operation args 1 \<and> delay (Reset (BackOff args)) 0 \<noteq> Stop \<and>
      retried e ctx operation args 2 \<and> delay (Reset (BackOff args)) 1 \<noteq> Stop \<and>
      snd (operation 3) = None"
  have "\<forall>i. 1 \<le> i \<and> i < 1 + 2 \<longrightarrow>
      retried e ctx operation args i \<and> delay (Reset (BackOff args)) (i - 1) \<noteq> Stop"
  proof (intro allI impI)
    fix i :: nat assume "1 \<le> i \<and> i < 1 + 2"
    then have "i = 1 \<or> i = 2" by arith
    with h show "retried e ctx operation args i \<and> delay (Reset (BackOff args)) (i - 1) \<noteq> Stop"
      by auto
  qed
  from loop_continues[OF this, of "Suc fuel"] obtain evs b' where
    r0: "Retry_loop (2 + Suc fuel) e ctx operation args 1 (Reset (BackOff args)) =
          before evs (Retry_loop (Suc fuel) e ctx operation args (1 + 2) b')"
      "invocations evs = [1..<1 + 2]"
    by blast
  have three: "(1::nat) + 2 = 3" by simp
  note r = r0[unfolded three]
  from h have a: "attempt e ctx operation args 3 b' =
      ([CallOperation 3 None], Return Success (fst (operation 3)) None b')"
    by (auto simp: attempt_def split: prod.splits option.splits)
  have fuel: "3 + fuel = 2 + Suc fuel" by simp
  have "Retry (3 + fuel) e ctx operation opts =
      Returned Success 3 (fst (operation 3)) None b'
        (CallNow # CallReset # evs @ [CallOperation 3 None, CallTimerStop (Timer args)])"
    using r(1) a assms unfolding fuel by (simp add: Retry_def Let_def)
  moreover have "invocations (CallNow # CallReset # evs @
      [CallOperation 3 None, CallTimerStop (Timer args)]) = [1, 2, 3]"
    using r(2) by (simp add: upt_rec)
  ultimately show "\<exists>b tr. Retry (3 + fuel) e ctx operation opts =
            Returned Success 3 (fst (operation 3)) None b tr \<and> invocations tr = [1, 2, 3]"
    by blast
qed

text \<open>
  The theorem at the default options, with a clock that stands still and a
  context that is never cancelled.
\<close>

theorem invoked_once_and_success_returns_witness:
  "(\<exists>b tr. Retry 3 still background fails_twice [] = Returned Success 3 42 None b tr \<and>
       invocations tr = [1, 2, 3]) \<and>
   (\<exists>b pre. Retry 3 still background fails_twice [] =
       Returned Success 3 42 None b (pre @ [CallOperation 3 None, CallTimerStop defaultTimer]))"
proof -
  let ?opts = "[] :: Duration RetryOption list"
  let ?args = "applyOptions still ?opts"
  note t = invoked_once_and_success_returns[where e = still and opts = ?opts and fuel = 0
      and ctx = background and operation = fails_twice, OF refl]
  have args: "MaxTries ?args = 0" "BackOff ?args = doubling" "Timer ?args = defaultTimer"
    "MaxElapsedTime ?args = DefaultMaxElapsedTime"
    by (simp_all add: applyOptions_def defaultOptions_def still_def)
  have clock: "time_Since still i = 0" for i
    by (simp add: still_def)
  have "retried still background fails_twice ?args i" if "i < 3" for i
    using that by (simp add: retried_def passes_tests_def args fails_twice_def boom_def clock background_def
        DefaultMaxElapsedTime_def Minute_def Second_def)
  moreover have "delay (Reset (BackOff ?args)) k \<noteq> Stop" for k
    by (simp add: args delay_doubling_not_Stop)
  ultimately have "retried still background fails_twice ?args 1 \<and>
      delay (Reset (BackOff ?args)) 0 \<noteq> Stop \<and>
      retried still background fails_twice ?args 2 \<and>
      delay (Reset (BackOff ?args)) 1 \<noteq> Stop \<and>
      snd (fails_twice 3) = None"
    by (simp add: fails_twice_def)
  with t have r: "\<exists>b tr. Retry (3 + 0) still background fails_twice ?opts =
      Returned Success 3 (fst (fails_twice 3)) None b tr \<and> invocations tr = [1, 2, 3]"
    by blast
  note t3 = invoked_once_and_success_returns[where e = still and opts = ?opts and fuel = 3
      and ctx = background and operation = fails_twice, OF refl]
  have "CallOperation 3 None \<in> set (events (Retry 3 still background fails_twice ?opts))"
    by (simp add: unfolds numeral_3_eq_3)
  with t3 have "\<exists>b pre. Retry 3 still background fails_twice ?opts =
      Returned Success 3 (fst (fails_twice 3)) None b
        (pre @ [CallOperation 3 None, CallTimerStop (Timer ?args)])"
    by blast
  with r show ?thesis
    by (simp add: args fails_twice_def)
qed

text \<open>
  The claim as the specification states it fails: with \<^verbatim>\<open>MaxTries = 1\<close>, an operation
  that fails twice and then succeeds is invoked once, and \<^verbatim>\<open>Retry\<close> returns its
  first error.
\<close>

theorem fails_twice_counterexample:
  "fails_twice 1 = (0, Some boom) \<and> fails_twice 2 = (0, Some boom) \<and> fails_twice 3 = (42, None) \<and>
   Retry 3 still background fails_twice [WithMaxTries 1] =
     Returned MaxTriesReached 1 0 (Some boom) (Reset doubling)
       [CallNow, CallReset, CallOperation 1 (Some boom), CallTimerStop defaultTimer]"
  by (simp add: unfolds numeral_3_eq_3)


section \<open>Cancellation\<close>

text \<open>Every logged call was made in some pass; when that pass took a return, it is the
  return of the loop.\<close>

lemma loop_event_pass:
  "ev \<in> set (events (Retry_loop fuel e ctx operation args n b)) \<Longrightarrow>
     \<exists>m bm evs st. n \<le> m \<and> attempt e ctx operation args m bm = (evs, st) \<and> ev \<in> set evs \<and>
       (\<forall>x res err b'. st = Return x res err b' \<longrightarrow>
          (\<exists>pre. Retry_loop fuel e ctx operation args n b = Returned x m res err b' (pre @ evs)))"
proof (induction fuel arbitrary: n b)
  case 0
  then show ?case by simp
next
  case (Suc fuel)
  obtain evs st where a: "attempt e ctx operation args n b = (evs, st)"
    by (cases "attempt e ctx operation args n b")
  show ?case
  proof (cases st)
    case (Return x res err b')
    with Suc.prems a have "ev \<in> set evs" by simp
    moreover have "Retry_loop (Suc fuel) e ctx operation args n b = Returned x n res err b' ([] @ evs)"
      using a Return by simp
    ultimately show ?thesis using a Return
      by (intro exI[of _ n] exI[of _ b] exI[of _ evs] exI[of _ st]) blast
  next
    case (Continue b')
    show ?thesis
    proof (cases "ev \<in> set evs")
      case True
      with a Continue show ?thesis
        by (intro exI[of _ n] exI[of _ b] exI[of _ evs] exI[of _ st]) simp
    next
      case False
      with Suc.prems a Continue
      have "ev \<in> set (events (Retry_loop fuel e ctx operation args (Suc n) b'))"
        by simp
      from Suc.IH[OF this] obtain m bm evs' st' where
        h: "Suc n \<le> m" "attempt e ctx operation args m bm = (evs', st')" "ev \<in> set evs'"
          "\<forall>x res err b''. st' = Return x res err b'' \<longrightarrow>
             (\<exists>pre. Retry_loop fuel e ctx operation args (Suc n) b' = Returned x m res err b'' (pre @ evs'))"
        by blast
      have "\<forall>x res err b''. st' = Return x res err b'' \<longrightarrow>
             (\<exists>pre. Retry_loop (Suc fuel) e ctx operation args n b = Returned x m res err b'' (pre @ evs'))"
      proof (intro allI impI)
        fix x res err b''
        assume "st' = Return x res err b''"
        with h(4) obtain pre where
          "Retry_loop fuel e ctx operation args (Suc n) b' = Returned x m res err b'' (pre @ evs')"
          by blast
        with a Continue
        have "Retry_loop (Suc fuel) e ctx operation args n b = Returned x m res err b'' ((evs @ pre) @ evs')"
          by simp
        then show "\<exists>pre. Retry_loop (Suc fuel) e ctx operation args n b = Returned x m res err b'' (pre @ evs')"
          by blast
      qed
      with h(1,2,3) show ?thesis
        by (intro exI[of _ m] exI[of _ bm] exI[of _ evs'] exI[of _ st']) simp
    qed
  qed
qed

lemma Retry_event_pass:
  assumes "ev \<in> set (events (Retry fuel e ctx operation opts))"
    and "ev \<noteq> CallNow" "ev \<noteq> CallReset" "\<forall>t. ev \<noteq> CallTimerStop t"
  shows "\<exists>m bm evs st. 1 \<le> m \<and>
       attempt e ctx operation (applyOptions e opts) m bm = (evs, st) \<and> ev \<in> set evs \<and>
       (\<forall>x res err b'. st = Return x res err b' \<longrightarrow>
          (\<exists>pre. Retry fuel e ctx operation opts =
             Returned x m res err b' (pre @ evs @ [CallTimerStop (Timer (applyOptions e opts))])))"
proof -
  let ?args = "applyOptions e opts"
  let ?loop = "Retry_loop fuel e ctx operation ?args 1 (Reset (BackOff ?args))"
  have "ev \<in> set (events ?loop)"
    using assms by (cases ?loop) (auto simp: Retry_def Let_def)
  from loop_event_pass[OF this] obtain m bm evs st where
    h: "1 \<le> m" "attempt e ctx operation ?args m bm = (evs, st)" "ev \<in> set evs"
      "\<forall>x res err b'. st = Return x res err b' \<longrightarrow>
          (\<exists>pre. ?loop = Returned x m res err b' (pre @ evs))"
    by blast
  have "\<forall>x res err b'. st = Return x res err b' \<longrightarrow>
          (\<exists>pre. Retry fuel e ctx operation opts =
             Returned x m res err b' (pre @ evs @ [CallTimerStop (Timer ?args)]))"
  proof (intro allI impI)
    fix x res err b'
    assume "st = Return x res err b'"
    with h(4) obtain pre where "?loop = Returned x m res err b' (pre @ evs)" by blast
    then have "Retry fuel e ctx operation opts =
        Returned x m res err b' ((CallNow # CallReset # pre) @ evs @ [CallTimerStop (Timer ?args)])"
      by (simp add: Retry_def Let_def)
    then show "\<exists>pre. Retry fuel e ctx operation opts =
             Returned x m res err b' (pre @ evs @ [CallTimerStop (Timer ?args)])"
      by blast
  qed
  with h(1,2,3) show ?thesis by blast
qed

lemma attempt_CtxErr_event:
  assumes "attempt e ctx operation args n b = (evs, st)"
    and "CallCtxErr (Some cerr) \<in> set evs"
  shows "\<exists>x b'. st = Return x (fst (operation n)) (Some cerr) b' \<and>
           (x = CancelledBeforeWait \<and> Err_before_wait ctx n = Some cerr \<or>
            x = CancelledDuringWait \<and> Err_before_wait ctx n = None \<and>
              Done_during_wait ctx n = Some cerr)"
  using assms
  by (auto simp: attempt_def notify_def split: prod.splits option.splits if_splits)

lemma attempt_CtxDone_event:
  assumes "attempt e ctx operation args n b = (evs, st)"
    and "CallSelect CtxDone \<in> set evs"
  shows "\<exists>cerr b'. st = Return CancelledDuringWait (fst (operation n)) (Some cerr) b' \<and>
           Err_before_wait ctx n = None \<and> Done_during_wait ctx n = Some cerr"
  using assms
  by (auto simp: attempt_def notify_def split: prod.splits option.splits if_splits)


text \<open>A call gets to pass n when the passes before it are retried.\<close>

lemma Retry_reaches:
  assumes "\<forall>i. 1 \<le> i \<and> i < n \<longrightarrow>
      retried e ctx operation (applyOptions e opts) i \<and>
      delay (Reset (BackOff (applyOptions e opts))) (i - 1) \<noteq> Stop"
    and "1 \<le> n"
  shows "\<exists>evs b'. Retry (n + fuel) e ctx operation opts =
            deferred (Timer (applyOptions e opts))
              (before (CallNow # CallReset # evs)
                 (Retry_loop (Suc fuel) e ctx operation (applyOptions e opts) n b')) \<and>
          invocations evs = [1..<n] \<and>
          fst (NextBackOff b') = delay (Reset (BackOff (applyOptions e opts))) (n - 1)"
proof -
  let ?args = "applyOptions e opts"
  obtain k where k: "n = 1 + k" using assms(2) by (cases n) auto
  have "\<forall>i. 1 \<le> i \<and> i < 1 + k \<longrightarrow>
      retried e ctx operation ?args i \<and> delay (Reset (BackOff ?args)) (i - 1) \<noteq> Stop"
    using assms(1) k by simp
  from loop_continues[OF this, of "Suc fuel"] obtain evs b' where
    r: "Retry_loop (k + Suc fuel) e ctx operation ?args 1 (Reset (BackOff ?args)) =
          before evs (Retry_loop (Suc fuel) e ctx operation ?args (1 + k) b')"
      "invocations evs = [1..<1 + k]" "\<forall>j. delay b' j = delay (Reset (BackOff ?args)) (k + j)"
    by blast
  have "n + fuel = k + Suc fuel" using k by simp
  then have "Retry (n + fuel) e ctx operation opts =
      deferred (Timer ?args)
        (before (CallNow # CallReset # evs) (Retry_loop (Suc fuel) e ctx operation ?args n b'))"
    using r(1) k by (simp add: Retry_def Let_def del: Retry_loop.simps)
  moreover have "fst (NextBackOff b') = delay (Reset (BackOff ?args)) (n - 1)"
    using r(3)[rule_format, of 0] k by (simp add: delay_0)
  ultimately show ?thesis using r(2) k
    by (intro exI[of _ evs] exI[of _ b']) (simp del: Retry_loop.simps)
qed

text \<open>
  C5. The context is looked at in two places: \<^verbatim>\<open>ctx.Err()\<close> before the wait, and
  \<^verbatim>\<open>ctx.Done()\<close> in the \<^verbatim>\<open>select\<close> of the wait (where the model says which of the two
  channels the \<^verbatim>\<open>select\<close> takes).
  \<^item> Whenever a call of \<^verbatim>\<open>ctx.Err()\<close> has returned a non-nil \<open>cerr\<close>, \<^verbatim>\<open>Retry\<close> has
    returned with the error \<open>cerr\<close>, in the pass \<open>m\<close> in which the context said so and
    together with that invocation's result.
  \<^item> Whenever a \<^verbatim>\<open>select\<close> has taken \<^verbatim>\<open>ctx.Done()\<close>, \<^verbatim>\<open>Retry\<close> has returned with the
    context's error.
  \<^item> When the passes before \<open>n\<close> are retried and pass \<open>n\<close> gets to the context (the
    operation failed, the three tests before do not hold, the delay is not
    \<^verbatim>\<open>Stop\<close>), a context that is cancelled before the wait, or during it, makes
    \<^verbatim>\<open>Retry\<close> return in pass \<open>n\<close> with the context's error, not the operation's.
\<close>

theorem cancellation_returns_context_error:
  assumes "args = applyOptions e opts"
  shows
    "(CallCtxErr (Some cerr) \<in> set (events (Retry fuel e ctx operation opts)) \<longrightarrow>
        (\<exists>x m b tr. Retry fuel e ctx operation opts =
            Returned x m (fst (operation m)) (Some cerr) b tr \<and>
          (x = CancelledBeforeWait \<and> Err_before_wait ctx m = Some cerr \<or>
           x = CancelledDuringWait \<and> Err_before_wait ctx m = None \<and>
             Done_during_wait ctx m = Some cerr))) \<and>
     (CallSelect CtxDone \<in> set (events (Retry fuel e ctx operation opts)) \<longrightarrow>
        (\<exists>m cerr' b tr. Retry fuel e ctx operation opts =
            Returned CancelledDuringWait m (fst (operation m)) (Some cerr') b tr \<and>
          Done_during_wait ctx m = Some cerr')) \<and>
     ((\<forall>i. 1 \<le> i \<and> i < n \<longrightarrow>
          retried e ctx operation args i \<and> delay (Reset (BackOff args)) (i - 1) \<noteq> Stop) \<and>
      1 \<le> n \<and> passes_tests e operation args n \<and> delay (Reset (BackOff args)) (n - 1) \<noteq> Stop \<longrightarrow>
        (Err_before_wait ctx n = Some cerr \<longrightarrow>
           (\<exists>b tr. Retry (n + fuel) e ctx operation opts =
              Returned CancelledBeforeWait n (fst (operation n)) (Some cerr) b tr)) \<and>
        (Err_before_wait ctx n = None \<and> Done_during_wait ctx n = Some cerr \<longrightarrow>
           (\<exists>b tr. Retry (n + fuel) e ctx operation opts =
              Returned CancelledDuringWait n (fst (operation n)) (Some cerr) b tr)))"
proof (intro conjI impI)
  assume ev: "CallCtxErr (Some cerr) \<in> set (events (Retry fuel e ctx operation opts))"
  from Retry_event_pass[OF ev] obtain m bm evs st where
    h: "attempt e ctx operation args m bm = (evs, st)" "CallCtxErr (Some cerr) \<in> set evs"
      "\<forall>x res err b'. st = Return x res err b' \<longrightarrow>
          (\<exists>pre. Retry fuel e ctx operation opts =
             Returned x m res err b' (pre @ evs @ [CallTimerStop (Timer args)]))"
    using assms by auto
  from attempt_CtxErr_event[OF h(1,2)] h(3)
  show "\<exists>x m b tr. Retry fuel e ctx operation opts =
            Returned x m (fst (operation m)) (Some cerr) b tr \<and>
          (x = CancelledBeforeWait \<and> Err_before_wait ctx m = Some cerr \<or>
           x = CancelledDuringWait \<and> Err_before_wait ctx m = None \<and>
             Done_during_wait ctx m = Some cerr)"
    by blast
next
  assume ev: "CallSelect CtxDone \<in> set (events (Retry fuel e ctx operation opts))"
  from Retry_event_pass[OF ev] obtain m bm evs st where
    h: "attempt e ctx operation args m bm = (evs, st)" "CallSelect CtxDone \<in> set evs"
      "\<forall>x res err b'. st = Return x res err b' \<longrightarrow>
          (\<exists>pre. Retry fuel e ctx operation opts =
             Returned x m res err b' (pre @ evs @ [CallTimerStop (Timer args)]))"
    using assms by auto
  from attempt_CtxDone_event[OF h(1,2)] h(3)
  show "\<exists>m cerr' b tr. Retry fuel e ctx operation opts =
            Returned CancelledDuringWait m (fst (operation m)) (Some cerr') b tr \<and>
          Done_during_wait ctx m = Some cerr'"
    by blast
next
  assume h: "(\<forall>i. 1 \<le> i \<and> i < n \<longrightarrow>
          retried e ctx operation args i \<and> delay (Reset (BackOff args)) (i - 1) \<noteq> Stop) \<and>
      1 \<le> n \<and> passes_tests e operation args n \<and> delay (Reset (BackOff args)) (n - 1) \<noteq> Stop"
  then obtain evs b' where
    r: "Retry (n + fuel) e ctx operation opts =
          deferred (Timer args)
            (before (CallNow # CallReset # evs) (Retry_loop (Suc fuel) e ctx operation args n b'))"
      "fst (NextBackOff b') \<noteq> Stop"
    using Retry_reaches[of n e ctx operation opts fuel] assms by auto
  {
    assume c: "Err_before_wait ctx n = Some cerr"
    with h r(2) have "\<exists>evs'. attempt e ctx operation args n b' =
        (evs', Return CancelledBeforeWait (fst (operation n)) (Some cerr) (snd (NextBackOff b')))"
      by (auto simp: attempt_def passes_tests_def split: prod.splits option.splits)
    with r(1) show "\<exists>b tr. Retry (n + fuel) e ctx operation opts =
              Returned CancelledBeforeWait n (fst (operation n)) (Some cerr) b tr"
      by auto
  }
  {
    assume c: "Err_before_wait ctx n = None \<and> Done_during_wait ctx n = Some cerr"
    with h r(2) have "\<exists>evs'. attempt e ctx operation args n b' =
        (evs', Return CancelledDuringWait (fst (operation n)) (Some cerr) (snd (NextBackOff b')))"
      by (auto simp: attempt_def passes_tests_def split: prod.splits option.splits)
    with r(1) show "\<exists>b tr. Retry (n + fuel) e ctx operation opts =
              Returned CancelledDuringWait n (fst (operation n)) (Some cerr) b tr"
      by auto
  }
qed


text \<open>
  The theorem at a context that is cancelled from the start, and at one that is
  cancelled during the first wait.
\<close>

theorem cancellation_returns_context_error_witness:
  "(\<exists>b tr. Retry 1 still cancelled always_fails [] =
       Returned CancelledBeforeWait 1 0 (Some Canceled) b tr) \<and>
   (\<exists>b tr. Retry 1 still cancelled_in_wait always_fails [] =
       Returned CancelledDuringWait 1 0 (Some Canceled) b tr) \<and>
   (\<exists>x m b tr. Retry 1 still cancelled always_fails [] = Returned x m 0 (Some Canceled) b tr) \<and>
   (\<exists>m cerr b tr. Retry 1 still cancelled_in_wait always_fails [] =
       Returned CancelledDuringWait m 0 (Some cerr) b tr)"
proof -
  let ?opts = "[] :: Duration RetryOption list"
  let ?args = "applyOptions still ?opts"
  note t1 = cancellation_returns_context_error[where e = still and opts = ?opts and fuel = 0
      and ctx = cancelled and operation = always_fails and n = 1 and cerr = Canceled, OF refl]
  note t2 = cancellation_returns_context_error[where e = still and opts = ?opts and fuel = 0
      and ctx = cancelled_in_wait and operation = always_fails and n = 1 and cerr = Canceled,
      OF refl]
  note t3 = cancellation_returns_context_error[where e = still and opts = ?opts and fuel = 1
      and ctx = cancelled and operation = always_fails and cerr = Canceled, OF refl]
  note t4 = cancellation_returns_context_error[where e = still and opts = ?opts and fuel = 1
      and ctx = cancelled_in_wait and operation = always_fails, OF refl]
  have args: "MaxTries ?args = 0" "BackOff ?args = doubling"
    "MaxElapsedTime ?args = DefaultMaxElapsedTime"
    by (simp_all add: applyOptions_def defaultOptions_def still_def)
  have clock: "time_Since still i = 0" for i
    by (simp add: still_def)
  have h: "(\<forall>i. 1 \<le> i \<and> i < (1::nat) \<longrightarrow>
        retried still ctx always_fails ?args i \<and> delay (Reset (BackOff ?args)) (i - 1) \<noteq> Stop) \<and>
      1 \<le> (1::nat) \<and> passes_tests still always_fails ?args 1 \<and>
      delay (Reset (BackOff ?args)) (1 - 1) \<noteq> Stop" for ctx
    by (simp add: passes_tests_def args always_fails_def boom_def clock
        DefaultMaxElapsedTime_def Minute_def Second_def delay_doubling_not_Stop)
  have c1: "Err_before_wait cancelled 1 = Some Canceled"
    by (simp add: cancelled_def)
  have c2: "Err_before_wait cancelled_in_wait 1 = None \<and>
      Done_during_wait cancelled_in_wait 1 = Some Canceled"
    by (simp add: cancelled_in_wait_def)
  from t1 h[of cancelled] c1
  have r1: "\<exists>b tr. Retry (1 + 0) still cancelled always_fails ?opts =
      Returned CancelledBeforeWait 1 (fst (always_fails 1)) (Some Canceled) b tr"
    by blast
  from t2 h[of cancelled_in_wait] c2
  have r2: "\<exists>b tr. Retry (1 + 0) still cancelled_in_wait always_fails ?opts =
      Returned CancelledDuringWait 1 (fst (always_fails 1)) (Some Canceled) b tr"
    by blast
  have "CallCtxErr (Some Canceled) \<in> set (events (Retry 1 still cancelled always_fails ?opts))"
    by (simp add: unfolds)
  with t3 have r3: "\<exists>x m b tr. Retry 1 still cancelled always_fails ?opts =
      Returned x m (fst (always_fails m)) (Some Canceled) b tr"
    by blast
  have "CallSelect CtxDone \<in> set (events (Retry 1 still cancelled_in_wait always_fails ?opts))"
    by (simp add: unfolds)
  with t4 have r4: "\<exists>m cerr b tr. Retry 1 still cancelled_in_wait always_fails ?opts =
      Returned CancelledDuringWait m (fst (always_fails m)) (Some cerr) b tr"
    by blast
  from r1 r2 r3 r4 show ?thesis
    by (simp add: always_fails_def)
qed

section \<open>Success and cancellation\<close>









section \<open>Resetting the generator\<close>

lemma delays_append [simp]: "delays (xs @ ys) = delays xs @ delays ys"
  by (induction xs rule: delays.induct) simp_all

lemma delays_notify [simp]: "delays (notify cb oerr d) = []"
  by (simp add: notify_def split: option.splits)

lemma attempt_no_Reset:
  "attempt e ctx operation args n b = (evs, st) \<Longrightarrow> CallReset \<notin> set evs"
  by (auto simp: attempt_def notify_def split: prod.splits option.splits if_splits)

lemma attempt_delays:
  assumes "attempt e ctx operation args n b = (evs, st)"
  shows "delays evs = [] \<or> delays evs = [delay b 0]"
    and "st = Continue b' \<longrightarrow> delays evs = [delay b 0]"
  using assms
  by (auto simp: attempt_def delay_0 split: prod.splits option.splits if_splits)

lemma map_delay_Suc:
  "map (delay (snd (NextBackOff b))) [0..<k] = map (delay b) [Suc 0..<Suc k]"
proof -
  have "map (delay b) [Suc 0..<Suc k] = map (delay b \<circ> Suc) [0..<k]"
    by (simp only: map_Suc_upt[symmetric] map_map)
  then show ?thesis by (simp add: delay_Suc comp_def)
qed

lemma loop_delays:
  "delays (events (Retry_loop fuel e ctx operation args n b)) =
     map (delay b) [0..<length (delays (events (Retry_loop fuel e ctx operation args n b)))]"
proof (induction fuel arbitrary: n b)
  case 0
  show ?case by simp
next
  case (Suc fuel)
  obtain evs st where a: "attempt e ctx operation args n b = (evs, st)"
    by (cases "attempt e ctx operation args n b")
  show ?case
  proof (cases st)
    case (Return x res err b')
    with a attempt_delays(1)[OF a] show ?thesis by auto
  next
    case (Continue b')
    with a have b': "b' = snd (NextBackOff b)"
      using attempt_Continue_iff[of e ctx operation args n b b'] by blast
    let ?rest = "delays (events (Retry_loop fuel e ctx operation args (Suc n) b'))"
    let ?all = "delays (events (Retry_loop (Suc fuel) e ctx operation args n b))"
    have d: "delays evs = [delay b 0]"
      using attempt_delays(2)[OF a, of b'] Continue by simp
    have all: "?all = delay b 0 # ?rest"
      using a Continue d by simp
    have "?rest = map (delay b') [0..<length ?rest]"
      by (rule Suc.IH)
    also have "\<dots> = map (delay b) [Suc 0..<Suc (length ?rest)]"
      unfolding b' by (rule map_delay_Suc)
    finally have "delay b 0 # ?rest = map (delay b) (0 # [Suc 0..<Suc (length ?rest)])"
      by (simp only: list.map)
    also have "0 # [Suc 0..<Suc (length ?rest)] = [0..<Suc (length ?rest)]"
      by (rule upt_conv_Cons[symmetric]) simp
    also have "Suc (length ?rest) = length ?all"
      by (simp only: all list.size length_Cons)
    finally show ?thesis
      by (simp only: all[symmetric])
  qed
qed

lemma loop_no_Reset: "CallReset \<notin> set (events (Retry_loop fuel e ctx operation args n b))"
proof
  assume "CallReset \<in> set (events (Retry_loop fuel e ctx operation args n b))"
  from loop_event_pass[OF this] obtain m bm evs st where
    "attempt e ctx operation args m bm = (evs, st)" "CallReset \<in> set evs"
    by blast
  with attempt_no_Reset show False by blast
qed

text \<open>
  C9. \<^verbatim>\<open>Retry\<close> calls \<^verbatim>\<open>Reset()\<close> on the configured generator once, before the first
  invocation of the operation, and never again.
  \<^item> The log of a call, whether it has returned or not, starts with \<^verbatim>\<open>time.Now()\<close>
    and \<^verbatim>\<open>Reset()\<close>, has no other \<^verbatim>\<open>Reset()\<close>, and goes on with the first invocation
    as soon as the loop has started.
  \<^item> The delays that the calls of \<^verbatim>\<open>NextBackOff\<close> return are, in order, those of the
    generator as \<^verbatim>\<open>Reset\<close> left it: nothing sets it back in between.
  \<^item> What a call does depends on the state in which it finds the generator only
    through \<^verbatim>\<open>Reset\<close>: two generators that \<^verbatim>\<open>Reset\<close> makes equal give the same call.
    So a generator that was used before starts a call as a fresh one does.
\<close>

theorem Reset_once_before_first_invocation:
  assumes "args = applyOptions e opts"
  shows
    "(\<exists>tr. events (Retry fuel e ctx operation opts) = CallNow # CallReset # tr \<and>
        CallReset \<notin> set tr \<and>
        (0 < fuel \<longrightarrow> (\<exists>rest. tr = CallOperation 1 (snd (operation 1)) # rest))) \<and>
     delays (events (Retry fuel e ctx operation opts)) =
       map (delay (Reset (BackOff args)))
         [0..<length (delays (events (Retry fuel e ctx operation opts)))] \<and>
     (Reset b1 = Reset b2 \<longrightarrow>
        Retry fuel e ctx operation (opts @ [WithBackOff b1]) =
        Retry fuel e ctx operation (opts @ [WithBackOff b2]))"
proof (intro conjI impI)
  let ?loop = "Retry_loop fuel e ctx operation args 1 (Reset (BackOff args))"
  let ?stop = "case ?loop of Returned x n res err b tr \<Rightarrow> [CallTimerStop (Timer args)]
     | Running tr \<Rightarrow> []"
  have ev: "events (Retry fuel e ctx operation opts) = CallNow # CallReset # events ?loop @ ?stop"
    using assms by (cases ?loop) (simp_all add: Retry_def Let_def)
  have "CallReset \<notin> set (events ?loop @ ?stop)"
    using loop_no_Reset[of fuel e ctx operation args 1 "Reset (BackOff args)"]
    by (cases ?loop) auto
  moreover have "\<exists>rest. events ?loop @ ?stop = CallOperation 1 (snd (operation 1)) # rest"
    if pos: "0 < fuel"
  proof -
    obtain k where k: "fuel = Suc k" using pos by (cases fuel) auto
    obtain evs st where a: "attempt e ctx operation args 1 (Reset (BackOff args)) = (evs, st)"
      by (cases "attempt e ctx operation args 1 (Reset (BackOff args))")
    from attempt_first[OF a] obtain rest where "evs = CallOperation 1 (snd (operation 1)) # rest"
      by blast
    with a k show ?thesis by (cases st) auto
  qed
  ultimately show "\<exists>tr. events (Retry fuel e ctx operation opts) = CallNow # CallReset # tr \<and>
        CallReset \<notin> set tr \<and>
        (0 < fuel \<longrightarrow> (\<exists>rest. tr = CallOperation 1 (snd (operation 1)) # rest))"
    using ev by blast
  have "delays ?stop = []" by (cases ?loop) simp_all
  then have "delays (events (Retry fuel e ctx operation opts)) = delays (events ?loop)"
    using ev by simp
  with loop_delays[of fuel e ctx operation args 1 "Reset (BackOff args)"]
  show "delays (events (Retry fuel e ctx operation opts)) =
       map (delay (Reset (BackOff args)))
         [0..<length (delays (events (Retry fuel e ctx operation opts)))]"
    by simp
next
  assume "Reset b1 = Reset b2"
  moreover have "applyOptions e (opts @ [WithBackOff b])
      = (applyOptions e opts)\<lparr>BackOff := b\<rparr>" for b
    by (simp add: applyOptions_def WithBackOff_def)
  moreover have "attempt e ctx operation (a\<lparr>BackOff := b\<rparr>) n g =
      attempt e ctx operation a n g" for a :: "'a retryOptions" and b n g
    by (simp add: attempt_def cong: prod.case_cong option.case_cong if_cong)
  then have "Retry_loop fuel e ctx operation (a\<lparr>BackOff := b\<rparr>) n g =
      Retry_loop fuel e ctx operation a n g" for a :: "'a retryOptions" and b n g
    by (induction fuel arbitrary: n g) simp_all
  ultimately show "Retry fuel e ctx operation (opts @ [WithBackOff b1]) =
        Retry fuel e ctx operation (opts @ [WithBackOff b2])"
    by (simp add: Retry_def Let_def)
qed


text \<open>
  The theorem at the doubling generator, once fresh and once left at 8 s by an
  earlier use.
\<close>

theorem Reset_once_before_first_invocation_witness:
  "Retry 3 still background fails_twice [WithBackOff (doubling\<lparr>bstate := 8000 * Millisecond\<rparr>)] =
     Retry 3 still background fails_twice [WithBackOff doubling] \<and>
   (\<exists>rest. events (Retry 3 still background fails_twice [WithBackOff doubling]) =
      CallNow # CallReset # CallOperation 1 (Some boom) # rest \<and> CallReset \<notin> set rest)"
proof -
  let ?used = "doubling\<lparr>bstate := 8000 * Millisecond\<rparr>"
  let ?opts = "[WithBackOff doubling] :: Duration RetryOption list"
  note t1 = Reset_once_before_first_invocation[where e = still
      and opts = "[] :: Duration RetryOption list" and fuel = 3
      and ctx = background and operation = fails_twice and ?b1.0 = ?used and ?b2.0 = doubling,
      OF refl]
  note t2 = Reset_once_before_first_invocation[where e = still and opts = ?opts and fuel = 3
      and ctx = background and operation = fails_twice, OF refl]
  have "Reset ?used = Reset doubling"
    by (simp add: Reset_def doubling_def)
  with t1 have r1: "Retry 3 still background fails_twice ([] @ [WithBackOff ?used]) =
      Retry 3 still background fails_twice ([] @ [WithBackOff doubling])"
    by blast
  have "(0::nat) < 3" by simp
  with t2 have r2: "\<exists>tr. events (Retry 3 still background fails_twice ?opts) =
      CallNow # CallReset # tr \<and> CallReset \<notin> set tr \<and>
      (\<exists>rest. tr = CallOperation 1 (snd (fails_twice 1)) # rest)"
    by blast
  from r1 r2 show ?thesis
    by (auto simp: fails_twice_def)
qed

section \<open>The Notify callback\<close>











section \<open>Errors that ask for a wait\<close>

text \<open>
  C1 does not hold of this \<^verbatim>\<open>Retry\<close>: it never looks for a \<^verbatim>\<open>*RetryAfterError\<close>, so such
  an error is retried like any other.
  \<^item> On an operation that returns \<^verbatim>\<open>RetryAfter(1)\<close> once and then succeeds, the wait
    before the second invocation is the generator's 500 ms, not the error's
    second, and the generator is left as the one call of \<^verbatim>\<open>NextBackOff\<close> left it: at
    1000 ms, not reset.
  \<^item> On an operation that fails, returns \<^verbatim>\<open>RetryAfter(3)\<close>, fails and succeeds, the
    three waits are the generator's 500 ms, 1000 ms and 2000 ms: the second is
    not the error's three seconds, and the third does not start again from the
    initial interval. \<^verbatim>\<open>Reset\<close> is called once, before the first invocation.
\<close>

theorem RetryAfter_waits_generator_delay:
  "RetryAfter 1 = Some (RetryAfterErrorPtr (Some (RetryAfterError Second))) \<and>
   Retry 2 still background retry_after_once [] =
     Returned Success 2 42 None (doubling\<lparr>bstate := 1000 * Millisecond\<rparr>)
       [CallNow, CallReset,
        CallOperation 1 (RetryAfter 1), CallSince 0, CallNextBackOff (500 * Millisecond),
        CallCtxErr None, CallTimerStart defaultTimer (500 * Millisecond), CallSelect TimerFired,
        CallOperation 2 None, CallTimerStop defaultTimer] \<and>
   Retry 4 still background retry_after_second [] =
     Returned Success 4 42 None (doubling\<lparr>bstate := 4000 * Millisecond\<rparr>)
       [CallNow, CallReset,
        CallOperation 1 (Some boom), CallSince 0, CallNextBackOff (500 * Millisecond),
        CallCtxErr None, CallTimerStart defaultTimer (500 * Millisecond), CallSelect TimerFired,
        CallOperation 2 (RetryAfter 3), CallSince 0, CallNextBackOff (1000 * Millisecond),
        CallCtxErr None, CallTimerStart defaultTimer (1000 * Millisecond), CallSelect TimerFired,
        CallOperation 3 (Some boom), CallSince 0, CallNextBackOff (2000 * Millisecond),
        CallCtxErr None, CallTimerStart defaultTimer (2000 * Millisecond), CallSelect TimerFired,
        CallOperation 4 None, CallTimerStop defaultTimer]"
  by (simp add: unfolds numeral_2_eq_2 numeral_3_eq_3 eval_nat_numeral)

section \<open>Permanent errors in Retry\<close>

text \<open>
  What \<^verbatim>\<open>Retry\<close> does on an error that unwraps to a \<^verbatim>\<open>*PermanentError\<close>: the pass returns
  at once, at the \<^verbatim>\<open>MaxTries\<close>, the \<^verbatim>\<open>MaxElapsedTime\<close> or the \<^verbatim>\<open>errors.As\<close> test, without
  asking the generator, the context, the callback or the timer, and what it
  returns is the operation's error itself.
\<close>

lemma attempt_permanent:
  assumes "snd (operation n) = Some oerr" and "errors_As_PermanentError oerr \<noteq> None"
  shows "\<exists>x evs. attempt e ctx operation args n b =
            (CallOperation n (Some oerr) # evs, Return x (fst (operation n)) (Some oerr) b) \<and>
          (x = MaxTriesReached \<or> x = MaxElapsedTimeExceeded \<or> x = PermanentFailure) \<and>
          (evs = [] \<or> evs = [CallSince (time_Since e n)])"
  using assms
  by (auto simp: attempt_def split: prod.splits option.splits)

text \<open>
  C3 does not hold of this \<^verbatim>\<open>Retry\<close> in one point: the error returned is not the
  wrapped error. On an operation that always returns
  \<^verbatim>\<open>Permanent(errors.New("x"))\<close>, \<^verbatim>\<open>Retry\<close> returns after one invocation, with no wait
  and no callback, and the error it returns is the \<^verbatim>\<open>*PermanentError\<close>, whose
  \<^verbatim>\<open>Unwrap()\<close> is \<^verbatim>\<open>errors.New("x")\<close>; it is not \<^verbatim>\<open>errors.New("x")\<close> itself.
\<close>

theorem permanent_error_returned_as_is:
  "Retry 1 still background always_permanent [] =
     Returned PermanentFailure 1 0
       (Some (PermanentErrorPtr (Some (PermanentError (Some (ErrorString ''x''))))))
       (Reset doubling)
       [CallNow, CallReset,
        CallOperation 1 (Some (PermanentErrorPtr (Some (PermanentError (Some (ErrorString ''x'')))))),
        CallSince 0, CallTimerStop defaultTimer] \<and>
   Unwrap (Some (PermanentError (Some (ErrorString ''x'')))) = Inr (Some (ErrorString ''x'')) \<and>
   PermanentErrorPtr (Some (PermanentError (Some (ErrorString ''x'')))) \<noteq> ErrorString ''x''"
  by (simp add: unfolds)

section \<open>The constructor of permanent errors\<close>

text \<open>
  C8. \<^verbatim>\<open>Permanent(nil)\<close> is nil; for every non-nil error \<open>err\<close>, \<^verbatim>\<open>Permanent(err)\<close> is a
  non-nil \<^verbatim>\<open>*PermanentError\<close> whose \<^verbatim>\<open>Unwrap()\<close> returns exactly \<open>err\<close> and whose
  \<^verbatim>\<open>Error()\<close> does what \<open>err.Error()\<close> does: the same string, or the same panic when
  \<open>err.Error()\<close> itself panics.
\<close>

theorem Permanent_wraps_transparently:
  "Permanent None = None \<and>
   (\<exists>p. Permanent (Some err) = Some (PermanentErrorPtr p) \<and>
        Unwrap p = Inr (Some err) \<and>
        Error fmtd (PermanentErrorPtr p) = Error fmtd err)"
  by simp

end
